theory Spec2Isabelle
  imports Main "HOL-Library.AList" "HOL-Library.Multiset" "HOL-Library.Product_Lexorder"
    "HOL-Library.List_Lexorder" "HOL-Library.Char_ord"
begin

section \<open>JavaScript values, error objects and classes\<close>

text \<open>
  The classes whose identity the code tests with \<open>instanceof\<close>. \<open>HttpError\<close> and
  \<open>FeatureExecutionError\<close> are declared in errors/index.ts; \<open>FeatureError\<close> and its subclass
  \<open>FeatureValidationError\<close> are imported from feature/types.ts. Every other class that extends
  one of them (BusinessError, a user's PaymentError, a class of another copy of the module that
  only has the same name) is \<open>Subclass name parent\<close>.
\<close>

datatype cls =
    Error_cls
  | HttpError_cls
  | FeatureExecutionError_cls
  | FeatureError_cls
  | FeatureValidationError_cls
  | Subclass string cls

text \<open>The prototype chain of a class, the class itself first.\<close>

fun ancestors :: "cls \<Rightarrow> cls list" where
  "ancestors Error_cls = [Error_cls]"
| "ancestors HttpError_cls = [HttpError_cls, Error_cls]"
| "ancestors FeatureExecutionError_cls = [FeatureExecutionError_cls, HttpError_cls, Error_cls]"
| "ancestors FeatureError_cls = [FeatureError_cls, Error_cls]"
| "ancestors FeatureValidationError_cls = [FeatureValidationError_cls, FeatureError_cls, Error_cls]"
| "ancestors (Subclass n p) = Subclass n p # ancestors p"

text \<open>
  A JavaScript value. An error object has its class, the two slots the \<open>Error\<close> constructor
  fills and that are not enumerable (\<open>message\<close>, \<open>stack\<close>), and its enumerable own properties
  in insertion order. A property can be present with the value \<open>undefined\<close>.
\<close>

datatype jsval =
    JUndefined
  | JNull
  | JBool bool
  | JNum int
  | JStr string
  | JArr "jsval list"
  | JObj "(string \<times> jsval) list"
  | JErr error
and error =
    ErrorObj (cls_of: cls) (message: string) (stack: string) (props: "(string \<times> jsval) list")

text \<open>\<open>e instanceof C\<close>, for an error object and for an arbitrary value.\<close>

definition instanceof :: "error \<Rightarrow> cls \<Rightarrow> bool" where
  "instanceof e c = (c \<in> set (ancestors (cls_of e)))"

fun instanceof_val :: "jsval \<Rightarrow> cls \<Rightarrow> bool" where
  "instanceof_val (JErr e) c = instanceof e c"
| "instanceof_val _ c = False"

text \<open>JavaScript truthiness, as \<open>if (v)\<close> and \<open>v || d\<close> test it.\<close>

fun truthy :: "jsval \<Rightarrow> bool" where
  "truthy JUndefined = False"
| "truthy JNull = False"
| "truthy (JBool b) = b"
| "truthy (JNum n) = (n \<noteq> 0)"
| "truthy (JStr s) = (s \<noteq> [])"
| "truthy (JArr xs) = True"
| "truthy (JObj ps) = True"
| "truthy (JErr e) = True"

definition js_or :: "jsval \<Rightarrow> jsval \<Rightarrow> jsval" where
  "js_or a b = (if truthy a then a else b)"

text \<open>
  Reading \<open>e.k\<close> on an error object: an enumerable own property wins; otherwise \<open>message\<close> and
  \<open>stack\<close> are the constructor's slots, \<open>name\<close> is inherited from \<open>Error.prototype\<close>, and
  anything else is \<open>undefined\<close>.
\<close>

definition err_get :: "error \<Rightarrow> string \<Rightarrow> jsval" where
  "err_get e k =
     (case map_of (props e) k of
        Some v \<Rightarrow> v
      | None \<Rightarrow>
          if k = ''message'' then JStr (message e)
          else if k = ''stack'' then JStr (stack e)
          else if k = ''name'' then JStr ''Error''
          else JUndefined)"

text \<open>Reading \<open>v.k\<close> on a value; a primitive has none of the properties the code reads.\<close>

fun get :: "jsval \<Rightarrow> string \<Rightarrow> jsval" where
  "get (JErr e) k = err_get e k"
| "get (JObj ps) k = (case map_of ps k of Some v \<Rightarrow> v | None \<Rightarrow> JUndefined)"
| "get _ k = JUndefined"

text \<open>
  \<open>Object.keys(v)\<close>: the enumerable own property names in insertion order. The code calls it
  on a value declared \<open>Error\<close>; index keys of strings and arrays are left out.
\<close>

fun Object_keys :: "jsval \<Rightarrow> string list" where
  "Object_keys (JErr e) = map fst (props e)"
| "Object_keys (JObj ps) = map fst ps"
| "Object_keys _ = []"

text \<open>\<open>o[k] = v\<close> on a property list: overwrite in place, or append.\<close>

abbreviation set_prop :: "string \<Rightarrow> jsval \<Rightarrow> (string \<times> jsval) list \<Rightarrow> (string \<times> jsval) list" where
  "set_prop k v ps \<equiv> AList.update k v ps"


section \<open>Conversion to strings\<close>

text \<open>
  \<open>String(v)\<close>, which a template literal applies to each interpolated value: decimal digits
  for an integer, the elements joined by commas for an array (\<open>null\<close> and \<open>undefined\<close> as the
  empty string), \<open>[object Object]\<close> for a plain object and \<open>name: message\<close> for an error.
\<close>

definition digit_char :: "nat \<Rightarrow> char" where
  "digit_char d = ''0123456789'' ! d"

function show_nat :: "nat \<Rightarrow> string" where
  "show_nat n = (if n < 10 then [digit_char n] else show_nat (n div 10) @ [digit_char (n mod 10)])"
  by pat_completeness auto
termination
  by (relation "measure id") auto

declare show_nat.simps [simp del]

definition show_int :: "int \<Rightarrow> string" where
  "show_int i = (if i < 0 then CHR ''-'' # show_nat (nat (- i)) else show_nat (nat i))"

fun join :: "string \<Rightarrow> string list \<Rightarrow> string" where
  "join sep [] = []"
| "join sep [x] = x"
| "join sep (x # y # ys) = x @ sep @ join sep (y # ys)"

lemma map_of_size:
  "map_of ps k = Some v \<Longrightarrow> size v < Suc (size_list (size_prod (\<lambda>x. 0) size) ps)"
  by (induction ps) (auto split: if_splits)

function to_string :: "jsval \<Rightarrow> string" where
  "to_string JUndefined = ''undefined''"
| "to_string JNull = ''null''"
| "to_string (JBool b) = (if b then ''true'' else ''false'')"
| "to_string (JNum n) = show_int n"
| "to_string (JStr s) = s"
| "to_string (JArr xs) =
     join '','' (map (\<lambda>x. if x = JUndefined \<or> x = JNull then [] else to_string x) xs)"
| "to_string (JObj ps) = ''[object Object]''"
| "to_string (JErr e) =
     (let name = (case map_of (props e) ''name'' of
                    None \<Rightarrow> ''Error'' | Some v \<Rightarrow> if v = JUndefined then ''Error'' else to_string v);
          msg = (case map_of (props e) ''message'' of
                    None \<Rightarrow> message e | Some v \<Rightarrow> if v = JUndefined then [] else to_string v)
      in if name = [] then msg else if msg = [] then name else name @ '': '' @ msg)"
  by pat_completeness auto
termination
  apply (relation "measure size")
     apply simp
    apply (simp add: less_Suc_eq_le size_list_estimation')
  subgoal for e v by (cases e) (auto dest: map_of_size)
  subgoal for e v by (cases e) (auto dest: map_of_size)
  done

section \<open>JSON serialisation\<close>

text \<open>
  The text \<open>JSON.stringify\<close> produces is represented by the tree a client parses it into.
  \<open>JSON.stringify\<close> returns \<open>undefined\<close> for \<open>undefined\<close>, leaves a property whose value is
  \<open>undefined\<close> out of an object, writes \<open>null\<close> for \<open>undefined\<close> in an array, and serialises an
  error object as the object of its enumerable own properties.
\<close>

datatype json =
    JsNull
  | JsBool bool
  | JsNum int
  | JsStr string
  | JsArr "json list"
  | JsObj "(string \<times> json) list"

definition elem_json :: "json option \<Rightarrow> json" where
  "elem_json j = (case j of None \<Rightarrow> JsNull | Some x \<Rightarrow> x)"

definition member_json :: "string \<times> json option \<Rightarrow> (string \<times> json) list" where
  "member_json kj = (case snd kj of None \<Rightarrow> [] | Some x \<Rightarrow> [(fst kj, x)])"

primrec JSON_stringify :: "jsval \<Rightarrow> json option"
  and stringify_error :: "error \<Rightarrow> json option"
  and stringify_elems :: "jsval list \<Rightarrow> json list"
  and stringify_members :: "(string \<times> jsval) list \<Rightarrow> (string \<times> json) list"
  and stringify_member :: "string \<times> jsval \<Rightarrow> (string \<times> json) list"
where
  "JSON_stringify JUndefined = None"
| "JSON_stringify JNull = Some JsNull"
| "JSON_stringify (JBool b) = Some (JsBool b)"
| "JSON_stringify (JNum n) = Some (JsNum n)"
| "JSON_stringify (JStr s) = Some (JsStr s)"
| "JSON_stringify (JArr xs) = Some (JsArr (stringify_elems xs))"
| "JSON_stringify (JObj ps) = Some (JsObj (stringify_members ps))"
| "JSON_stringify (JErr e) = stringify_error e"
| "stringify_error (ErrorObj c m s ps) = Some (JsObj (stringify_members ps))"
| "stringify_elems [] = []"
| "stringify_elems (x # xs) = elem_json (JSON_stringify x) # stringify_elems xs"
| "stringify_members [] = []"
| "stringify_members (p # ps) = stringify_member p @ stringify_members ps"
| "stringify_member (k, v) = member_json (k, JSON_stringify v)"

text \<open>Reading \<open>body.k\<close> of a parsed JSON object; \<open>None\<close> is \<open>undefined\<close>.\<close>

fun member :: "json \<Rightarrow> string \<Rightarrow> json option" where
  "member (JsObj ms) k = map_of ms k"
| "member _ k = None"


section \<open>Structural type guards (utils/type-guards.ts)\<close>

text \<open>
  Modelled from the spec: \<open>hasStatusCode\<close>, \<open>hasCode\<close> and \<open>hasValidationErrors\<close> of
  utils/type-guards.ts, which the error classes and both error handlers import. The spec
  describes the classifier as looking at the "presence and type of a numeric status-code
  field"; the response emitter uses "a code field" and "a validation-errors map" when available.
\<close>

definition hasStatusCode :: "jsval \<Rightarrow> bool" where
  "hasStatusCode v = (case get v ''statusCode'' of JNum n \<Rightarrow> True | _ \<Rightarrow> False)"

definition hasCode :: "jsval \<Rightarrow> bool" where
  "hasCode v = (case get v ''code'' of JStr s \<Rightarrow> True | _ \<Rightarrow> False)"

definition hasValidationErrors :: "jsval \<Rightarrow> bool" where
  "hasValidationErrors v = (case get v ''validationErrors'' of JObj ps \<Rightarrow> True | _ \<Rightarrow> False)"

section \<open>Error classes and classifiers (errors/index.ts)\<close>

text \<open>
  \<open>new HttpError(message, statusCode, options)\<close> for the class \<open>c\<close> being constructed:
  the constructor assigns \<open>name\<close> (the constructor's name), \<open>statusCode\<close>, \<open>isOperational\<close>,
  \<open>suggestion\<close> and \<open>docUrl\<close>, the last two also when they are \<open>undefined\<close>.
\<close>

fun class_name :: "cls \<Rightarrow> string" where
  "class_name Error_cls = ''Error''"
| "class_name HttpError_cls = ''HttpError''"
| "class_name FeatureExecutionError_cls = ''FeatureExecutionError''"
| "class_name FeatureError_cls = ''FeatureError''"
| "class_name FeatureValidationError_cls = ''FeatureValidationError''"
| "class_name (Subclass n p) = n"

definition HttpError :: "cls \<Rightarrow> string \<Rightarrow> string \<Rightarrow> jsval \<Rightarrow> jsval \<Rightarrow> jsval \<Rightarrow> error" where
  "HttpError c trace msg statusCode suggestion docUrl =
     ErrorObj c msg trace
       [(''name'', JStr (class_name c)),
        (''statusCode'', statusCode),
        (''isOperational'', JBool True),
        (''suggestion'', suggestion),
        (''docUrl'', docUrl)]"

text \<open>\<open>new BusinessError(message, code)\<close>; \<open>code\<close> is \<open>undefined\<close> when it is not given.\<close>

definition BusinessError :: "string \<Rightarrow> string \<Rightarrow> jsval \<Rightarrow> error" where
  "BusinessError trace msg code =
     (let e = HttpError (Subclass ''BusinessError'' HttpError_cls) trace msg (JNum 400)
                (JStr ''Review your request data and ensure it meets the business logic requirements.'')
                (JStr ''https://numflow.dev/docs/errors#business-error'')
      in ErrorObj (cls_of e) (message e) (stack e) (set_prop ''code'' code (props e)))"

text \<open>\<open>new ValidationError(message, validationErrors)\<close> of errors/index.ts.\<close>

definition ValidationError :: "string \<Rightarrow> string \<Rightarrow> jsval \<Rightarrow> error" where
  "ValidationError trace msg validationErrors =
     (let e = HttpError (Subclass ''ValidationError'' HttpError_cls) trace msg (JNum 400)
                (if truthy validationErrors
                 then JStr ''Check the validationErrors field for details on which fields failed validation.''
                 else JStr ''Verify that all required fields are present and have valid values.'')
                (JStr ''https://numflow.dev/docs/errors#validation-error'')
      in ErrorObj (cls_of e) (message e) (stack e)
           (set_prop ''validationErrors'' validationErrors (props e)))"

definition isHttpError :: "jsval \<Rightarrow> bool" where
  "isHttpError error =
     (if instanceof_val error HttpError_cls then True
      else if instanceof_val error Error_cls \<and> hasStatusCode error then True
      else False)"

definition isOperationalError :: "jsval \<Rightarrow> jsval" where
  "isOperationalError error =
     (if instanceof_val error HttpError_cls then get error ''isOperational''
      else if instanceof_val error Error_cls \<and> hasStatusCode error
        then JBool (get error ''isOperational'' = JBool True)
      else JBool False)"

text \<open>
  The \<open>message\<close> slot that \<open>new Error(m)\<close> fills: \<open>String(m)\<close>, and the empty string of the
  prototype when \<open>m\<close> is \<open>undefined\<close>.
\<close>

definition message_slot :: "jsval \<Rightarrow> string" where
  "message_slot m = (if m = JUndefined then [] else to_string m)"

definition step_suggestion :: "jsval \<Rightarrow> string" where
  "step_suggestion step =
     (if truthy step
      then ''Error occurred in step '' @ to_string (get step ''number'') @ '' ('' @
           to_string (get step ''name'') @
           ''). Check the step implementation and ensure all dependencies are available.''
      else ''Error occurred during feature execution. Review your step implementations and error handling.'')"

text \<open>
  \<open>new FeatureExecutionError(originalError, step)\<close>. The status code is taken from the original
  error by \<open>hasStatusCode\<close>; the constructor of \<open>HttpError\<close> runs first, then \<open>name\<close>,
  \<open>originalError\<close> and \<open>step\<close> are assigned.
\<close>

definition FeatureExecutionError :: "string \<Rightarrow> error \<Rightarrow> jsval \<Rightarrow> error" where
  "FeatureExecutionError trace originalError step =
     (let statusCode = (if hasStatusCode (JErr originalError)
                        then err_get originalError ''statusCode'' else JNum 500);
          suggestion = step_suggestion step;
          e = HttpError FeatureExecutionError_cls trace
                (message_slot (err_get originalError ''message''))
                statusCode (JStr suggestion)
                (JStr ''https://numflow.dev/docs/errors#feature-execution-error'')
      in ErrorObj (cls_of e) (message e) (stack e)
           (set_prop ''step'' step
             (set_prop ''originalError'' (JErr originalError)
               (set_prop ''name'' (JStr ''FeatureExecutionError'') (props e)))))"

section \<open>The response object and the console\<close>

text \<open>
  What the code uses of \<open>ServerResponse\<close>: the flag \<open>headersSent\<close>, the assignable
  \<open>statusCode\<close>, \<open>setHeader\<close> and \<open>end\<close>, which sends the headers and the body. The body is
  the JSON text handed to \<open>end\<close>, \<open>None\<close> as long as nothing was written.
\<close>

record response =
  headersSent :: bool
  res_statusCode :: jsval
  res_headers :: "(string \<times> string) list"
  res_body :: "json option"

definition setHeader :: "string \<Rightarrow> string \<Rightarrow> response \<Rightarrow> response" where
  "setHeader name v res = res\<lparr>res_headers := AList.update name v (res_headers res)\<rparr>"

definition res_end :: "json option \<Rightarrow> response \<Rightarrow> response" where
  "res_end data res = res\<lparr>headersSent := True, res_body := data\<rparr>"

datatype level = Log_level | Info_level | Error_level

type_synonym console = "(level \<times> string) list"

definition console_log :: "string \<Rightarrow> console \<Rightarrow> console" where
  "console_log msg con = con @ [(Log_level, msg)]"

definition console_info :: "string \<Rightarrow> console \<Rightarrow> console" where
  "console_info msg con = con @ [(Info_level, msg)]"

definition console_error :: "string \<Rightarrow> console \<Rightarrow> console" where
  "console_error msg con = con @ [(Error_level, msg)]"

section \<open>The error response emitter (errors/error-handler.ts)\<close>

definition standard_keys :: "string list" where
  "standard_keys = [''message'', ''stack'', ''name'', ''statusCode'', ''isOperational'']"

text \<open>
  The loop over \<open>Object.keys(err.originalError)\<close>: every key outside the standard ones is
  assigned to the error object of the response.
\<close>

definition copy_custom :: "jsval \<Rightarrow> (string \<times> jsval) list \<Rightarrow> (string \<times> jsval) list" where
  "copy_custom originalError acc =
     foldl (\<lambda>a key. if key \<in> set standard_keys then a else set_prop key (get originalError key) a)
       acc (Object_keys originalError)"

text \<open>The known properties of an \<open>HttpError\<close>: \<open>code\<close>, \<open>validationErrors\<close>, \<open>suggestion\<close>, \<open>docUrl\<close>.\<close>

definition copy_known :: "jsval \<Rightarrow> (string \<times> jsval) list \<Rightarrow> (string \<times> jsval) list" where
  "copy_known e acc =
     (let a1 = (if hasCode e then set_prop ''code'' (get e ''code'') acc else acc);
          a2 = (if hasValidationErrors e
                then set_prop ''validationErrors'' (get e ''validationErrors'') a1 else a1);
          a3 = (if truthy (get e ''suggestion'')
                then set_prop ''suggestion'' (get e ''suggestion'') a2 else a2);
          a4 = (if truthy (get e ''docUrl'') then set_prop ''docUrl'' (get e ''docUrl'') a3 else a3)
      in a4)"

definition status_of :: "error \<Rightarrow> jsval" where
  "status_of err =
     (if isHttpError (JErr err) then err_get err ''statusCode''
      else if instanceof err FeatureError_cls then err_get err ''statusCode''
      else JNum 500)"

definition message_of :: "error \<Rightarrow> jsval" where
  "message_of err = js_or (err_get err ''message'') (JStr ''Internal server error'')"

text \<open>The object \<open>errorResponse.error\<close> as it stands when the response is written.\<close>

definition error_object :: "error \<Rightarrow> bool \<Rightarrow> (string \<times> jsval) list" where
  "error_object err includeStack =
     (let e0 = [(''message'', message_of err), (''statusCode'', status_of err)];
          e1 = (if instanceof err FeatureError_cls then
                  (let s1 = (if truthy (err_get err ''step'')
                             then set_prop ''step''
                                    (JObj [(''number'', get (err_get err ''step'') ''number''),
                                           (''name'', get (err_get err ''step'') ''name'')]) e0
                             else e0);
                       s2 = (if truthy (err_get err ''originalError'') then
                               (let k = (if isHttpError (err_get err ''originalError'')
                                         then copy_known (err_get err ''originalError'') s1 else s1)
                                in copy_custom (err_get err ''originalError'') k)
                             else s1)
                   in s2)
                else if isHttpError (JErr err) then copy_known (JErr err) e0
                else e0);
          e2 = (if instanceof err FeatureExecutionError_cls \<and> truthy (err_get err ''step'')
                then set_prop ''step'' (err_get err ''step'') e1 else e1);
          e3 = (if includeStack \<and> truthy (err_get err ''stack'')
                then set_prop ''stack'' (err_get err ''stack'') e2 else e2)
      in e3)"

definition log_error_response :: "error \<Rightarrow> console \<Rightarrow> console" where
  "log_error_response err con =
     (let line = ''['' @ to_string (status_of err) @ ''] '' @ to_string (message_of err)
      in if truthy (isOperationalError (JErr err)) then console_info line con
         else (let c1 = console_error line con
               in if truthy (err_get err ''stack'')
                  then console_error (to_string (err_get err ''stack'')) c1 else c1))"

definition sendErrorResponse :: "error \<Rightarrow> response \<times> console \<Rightarrow> bool \<Rightarrow> response \<times> console" where
  "sendErrorResponse err w includeStack =
     (let res = fst w; con = snd w in
      if headersSent res then (res, con)
      else (let errorResponse = JObj [(''error'', JObj (error_object err includeStack))];
                con' = log_error_response err con;
                res1 = res\<lparr>res_statusCode := status_of err\<rparr>;
                res2 = setHeader ''Content-Type'' ''application/json'' res1;
                res3 = res_end (JSON_stringify errorResponse) res2
            in (res3, con')))"

text \<open>\<open>defaultErrorHandler\<close>: the stack is included unless \<open>NODE_ENV\<close> is \<open>production\<close>.\<close>

definition defaultErrorHandler :: "string option \<Rightarrow> error \<Rightarrow> response \<times> console \<Rightarrow> response \<times> console" where
  "defaultErrorHandler NODE_ENV err w = sendErrorResponse err w (NODE_ENV \<noteq> Some ''production'')"

section \<open>The Feature Error (feature/types.ts)\<close>

text \<open>
  Modelled from the spec: the class \<open>FeatureError\<close> of feature/types.ts, the Feature Error of
  the data model, which "wraps {message; reference to the triggering error (originalError);
  the Step Descriptor active when the failure occurred; a snapshot reference to the Context at
  failure time; resolved HTTP status code}". The tests construct it as
  \<open>new FeatureError(message, originalError, step, context, statusCode)\<close>, and the handlers
  test \<open>error.name === 'FeatureError'\<close>. The function of a Step Descriptor is not a JSON value
  and is left out of \<open>step\<close>.
\<close>

definition FeatureError :: "string \<Rightarrow> string \<Rightarrow> jsval \<Rightarrow> jsval \<Rightarrow> jsval \<Rightarrow> jsval \<Rightarrow> error" where
  "FeatureError trace msg originalError step context statusCode =
     ErrorObj FeatureError_cls msg trace
       [(''name'', JStr ''FeatureError''),
        (''originalError'', originalError),
        (''step'', step),
        (''context'', context),
        (''statusCode'', statusCode)]"

text \<open>
  Modelled from the spec: the validation error class of feature/types.ts, which the tests
  import as \<open>ValidationError\<close> and the Auto-Error Handler as \<open>FeatureValidationError\<close>, and
  which "extends FeatureError but has different name"; the tests read status 400 and name
  \<open>ValidationError\<close> from \<open>new ValidationError('Validation failed')\<close>.
\<close>

definition FeatureValidationError :: "string \<Rightarrow> string \<Rightarrow> error" where
  "FeatureValidationError trace msg =
     ErrorObj FeatureValidationError_cls msg trace
       [(''name'', JStr ''ValidationError''),
        (''originalError'', JUndefined),
        (''step'', JUndefined),
        (''context'', JUndefined),
        (''statusCode'', JNum 400)]"

text \<open>
  The objects of test/error-handler-original-error.test.ts: a \<open>BusinessError\<close> with the code
  \<open>OUT_OF_STOCK\<close>, the Feature Error that wraps it at step 200, and the mock response.
\<close>

definition stock_error :: error where
  "stock_error = BusinessError ''BusinessError: Out of stock at step'' ''Out of stock'' (JStr ''OUT_OF_STOCK'')"

definition stock_step :: jsval where
  "stock_step = JObj [(''number'', JNum 200), (''name'', JStr ''200-check-stock.js''),
                      (''path'', JStr ''/test'')]"

definition stock_feature_error :: error where
  "stock_feature_error =
     FeatureError ''FeatureError: Out of stock at wrap'' ''Out of stock'' (JErr stock_error)
       stock_step (JObj []) (JNum 400)"

text \<open>The \<open>ValidationError\<close> of the same test file, with its map of messages per field.\<close>

definition field_errors :: jsval where
  "field_errors =
     JObj [(''email'', JArr [JStr ''Email is required'', JStr ''Invalid format'']),
           (''password'', JArr [JStr ''Too short''])]"

definition invalid_error :: error where
  "invalid_error = ValidationError ''ValidationError: Validation failed'' ''Validation failed'' field_errors"

definition invalid_feature_error :: error where
  "invalid_feature_error =
     FeatureError ''FeatureError: Validation failed'' ''Validation failed'' (JErr invalid_error)
       (JObj [(''number'', JNum 100), (''name'', JStr ''100-validate.js''), (''path'', JStr ''/test'')])
       (JObj []) (JNum 400)"

definition mock_response :: response where
  "mock_response = \<lparr>headersSent = False, res_statusCode = JNum 0, res_headers = [], res_body = None\<rparr>"

section \<open>The Auto-Error Handler (feature/auto-error-handler.ts)\<close>

text \<open>The environment variables the code reads.\<close>

record env =
  NODE_ENV :: "string option"
  FEATURE_LOGS :: "string option"
  DISABLE_FEATURE_LOGS :: "string option"

definition isFeatureError :: "error \<Rightarrow> bool" where
  "isFeatureError error =
     (if instanceof error FeatureError_cls \<and> err_get error ''name'' = JStr ''FeatureError'' then True
      else err_get error ''name'' = JStr ''FeatureError'' \<and> hasStatusCode (JErr error))"

definition isValidationError :: "error \<Rightarrow> bool" where
  "isValidationError error =
     (if instanceof error FeatureValidationError_cls then True
      else err_get error ''name'' = JStr ''ValidationError'' \<and> hasStatusCode (JErr error))"

text \<open>
  The four local variables \<open>statusCode\<close>, \<open>errorName\<close>, \<open>errorMessage\<close> and \<open>details\<close> of
  \<open>AutoErrorHandler.sendErrorResponse\<close>, after its chain of \<open>if\<close>s.
\<close>

record classified =
  c_statusCode :: jsval
  c_errorName :: jsval
  c_errorMessage :: jsval
  c_details :: "(string \<times> jsval) list"

definition classify :: "error \<Rightarrow> classified" where
  "classify error =
     (if isFeatureError error then
        \<lparr>c_statusCode = err_get error ''statusCode'',
         c_errorName = err_get error ''name'',
         c_errorMessage = err_get error ''message'',
         c_details = (if truthy (err_get error ''step'')
                      then [(''step'', JObj [(''number'', get (err_get error ''step'') ''number''),
                                             (''name'', get (err_get error ''step'') ''name'')])]
                      else [])\<rparr>
      else if isValidationError error then
        \<lparr>c_statusCode = err_get error ''statusCode'',
         c_errorName = err_get error ''name'',
         c_errorMessage = err_get error ''message'',
         c_details = []\<rparr>
      else if hasStatusCode (JErr error) then
        \<lparr>c_statusCode = err_get error ''statusCode'',
         c_errorName = js_or (err_get error ''name'') (JStr ''Error''),
         c_errorMessage = js_or (err_get error ''message'') (JStr ''An unexpected error occurred''),
         c_details = []\<rparr>
      else
        \<lparr>c_statusCode = JNum 500,
         c_errorName = JStr ''Error'',
         c_errorMessage = js_or (err_get error ''message'') (JStr ''An unexpected error occurred''),
         c_details = []\<rparr>)"

definition AutoErrorHandler_sendErrorResponse :: "env \<Rightarrow> error \<Rightarrow> response \<Rightarrow> response" where
  "AutoErrorHandler_sendErrorResponse e error res =
     (let c = classify error;
          res1 = res\<lparr>res_statusCode := c_statusCode c\<rparr>;
          res2 = setHeader ''Content-Type'' ''application/json'' res1;
          payload = [(''success'', JBool False),
                     (''error'', c_errorName c),
                     (''message'', c_errorMessage c),
                     (''details'', if length (c_details c) > 0 then JObj (c_details c) else JUndefined)]
                    @ (if NODE_ENV e = Some ''development'' then [(''stack'', err_get error ''stack'')] else [])
      in res_end (JSON_stringify (JObj payload)) res2)"

definition AutoErrorHandler_logError :: "env \<Rightarrow> error \<Rightarrow> console \<Rightarrow> console" where
  "AutoErrorHandler_logError e error con =
     (if DISABLE_FEATURE_LOGS e = Some ''true'' \<or> NODE_ENV e = Some ''test'' then con
      else (let c1 = console_error ''[AutoErrorHandler] Error occurred:'' con;
                c2 = console_error (''  Name: '' @ to_string (err_get error ''name'')) c1;
                c3 = console_error (''  Message: '' @ to_string (err_get error ''message'')) c2;
                c4 = (if isFeatureError error \<and> truthy (err_get error ''step'')
                      then console_error (''  Step: '' @ to_string (get (err_get error ''step'') ''number'')
                             @ '' ('' @ to_string (get (err_get error ''step'') ''name'') @ '')'') c3
                      else c3);
                c5 = (if truthy (err_get error ''stack'')
                      then console_error (''  Stack: '' @ to_string (err_get error ''stack'')) c4 else c4)
            in c5))"

definition AutoErrorHandler_handle :: "env \<Rightarrow> error \<Rightarrow> response \<times> console \<Rightarrow> response \<times> console" where
  "AutoErrorHandler_handle e error w =
     (AutoErrorHandler_sendErrorResponse e error (fst w), AutoErrorHandler_logError e error (snd w))"

text \<open>
  Two errors with the same properties, status 422 and an empty \<open>name\<close>: an instance of the
  validation error class of feature/types.ts, and an \<open>Error\<close> of another module copy.
\<close>

definition unnamed_props :: "(string \<times> jsval) list" where
  "unnamed_props = [(''name'', JStr []), (''statusCode'', JNum 422)]"

definition unnamed_genuine :: error where
  "unnamed_genuine = ErrorObj FeatureValidationError_cls ''Invalid input'' [] unnamed_props"

definition unnamed_copy :: error where
  "unnamed_copy = ErrorObj Error_cls ''Invalid input'' [] unnamed_props"

text \<open>
  The errors of test/auto-error-handler-duck-typing.test.ts: a Feature Error with step
  information, and an \<open>Error\<close> that was given the same name, status code and step by hand.
\<close>

definition step_error_props :: "(string \<times> jsval) list" where
  "step_error_props =
     [(''name'', JStr ''FeatureError''),
      (''statusCode'', JNum 500),
      (''step'', JObj [(''number'', JNum 100), (''name'', JStr ''100-validate.js'')])]"

definition genuine_step_error :: error where
  "genuine_step_error = ErrorObj FeatureError_cls ''Step error'' [] step_error_props"

definition duck_step_error :: error where
  "duck_step_error = ErrorObj Error_cls ''Step error'' [] step_error_props"

definition test_env :: env where
  "test_env = \<lparr>NODE_ENV = Some ''test'', FEATURE_LOGS = None, DISABLE_FEATURE_LOGS = None\<rparr>"

definition production_env :: env where
  "production_env = \<lparr>NODE_ENV = Some ''production'', FEATURE_LOGS = None, DISABLE_FEATURE_LOGS = None\<rparr>"

definition development_env :: env where
  "development_env = \<lparr>NODE_ENV = Some ''development'', FEATURE_LOGS = None, DISABLE_FEATURE_LOGS = None\<rparr>"

section \<open>The Async Task Scheduler (feature/async-task-scheduler.ts)\<close>

text \<open>
  The state a request works on: its Context, its response, the module-level variables of the
  user's code, the console lines the framework writes, and the clock in milliseconds. What
  the user's functions print is not part of \<open>w_console\<close>.
\<close>

type_synonym Context = "(string \<times> jsval) list"

record world =
  w_ctx :: Context
  w_res :: response
  w_globals :: Context
  w_console :: console
  w_now :: nat

text \<open>
  An async task is called with the Context only. Awaiting it ends with a value thrown or
  not, leaves the Context as the task changed it, and takes some time. A task whose promise
  never settles is not described by this type.
\<close>

record task_result =
  thrown :: "jsval option"
  ctx_after :: Context
  elapsed :: nat

record AsyncTaskInfo =
  task_name :: string
  task_path :: string
  task_fn :: "Context \<Rightarrow> task_result"

definition isDebugMode :: "env \<Rightarrow> bool" where
  "isDebugMode e =
     (if NODE_ENV e = Some ''test'' then False
      else if FEATURE_LOGS e = Some ''true'' then True
      else if FEATURE_LOGS e = Some ''false'' then False
      else NODE_ENV e = Some ''development'')"

definition scheduler_log :: "env \<Rightarrow> string \<Rightarrow> world \<Rightarrow> world" where
  "scheduler_log e msg w =
     (if \<not> isDebugMode e then w
      else w\<lparr>w_console := console_log (''[AsyncTaskScheduler] '' @ msg) (w_console w)\<rparr>)"

definition scheduler_logError :: "env \<Rightarrow> string \<Rightarrow> world \<Rightarrow> world" where
  "scheduler_logError e msg w =
     (if \<not> isDebugMode e then w
      else w\<lparr>w_console := console_error (''[AsyncTaskScheduler] ERROR: '' @ msg) (w_console w)\<rparr>)"

text \<open>\<open>executeTask\<close>: the thrown value is passed on to the caller.\<close>

definition executeTask :: "env \<Rightarrow> AsyncTaskInfo \<Rightarrow> world \<Rightarrow> jsval option \<times> world" where
  "executeTask e task w =
     (let w1 = scheduler_log e (''Executing async task: '' @ task_name task) w;
          startTime = w_now w1;
          r = task_fn task (w_ctx w1);
          w2 = w1\<lparr>w_ctx := ctx_after r, w_now := w_now w1 + elapsed r\<rparr>
      in case thrown r of
           None \<Rightarrow>
             (let duration = w_now w2 - startTime
              in (None, scheduler_log e (''Async task \"'' @ task_name task @ ''\" completed in '' @
                          show_nat duration @ ''ms'') w2))
         | Some error \<Rightarrow> (Some error, w2))"

definition failure_text :: "jsval \<Rightarrow> string" where
  "failure_text error =
     (if instanceof_val error Error_cls then to_string (get error ''message'') else to_string error)"

definition failure_line :: "AsyncTaskInfo \<Rightarrow> jsval \<Rightarrow> string" where
  "failure_line task error =
     ''Async task \"'' @ task_name task @ ''\" at '' @ task_path task @ '' failed: '' @ failure_text error"

text \<open>The \<open>for\<close> loop of \<open>executeInBackground\<close> with its \<open>try\<close>/\<open>catch\<close>.\<close>

fun run_tasks :: "env \<Rightarrow> AsyncTaskInfo list \<Rightarrow> world \<Rightarrow> world" where
  "run_tasks e [] w = w"
| "run_tasks e (task # rest) w =
     (case executeTask e task w of
        (None, w') \<Rightarrow> run_tasks e rest w'
      | (Some error, w') \<Rightarrow> run_tasks e rest (scheduler_logError e (failure_line task error) w'))"

definition executeInBackground :: "env \<Rightarrow> AsyncTaskInfo list \<Rightarrow> world \<Rightarrow> world" where
  "executeInBackground e tasks w =
     scheduler_log e (''All '' @ show_nat (length tasks) @ '' async tasks completed'')
       (run_tasks e tasks w)"

text \<open>
  \<open>schedule\<close> starts \<open>executeInBackground\<close> without awaiting it and returns; the world given
  here is the one in which the background run has come to its end.
\<close>

definition schedule :: "env \<Rightarrow> AsyncTaskInfo list \<Rightarrow> world \<Rightarrow> world" where
  "schedule e tasks w =
     (if length tasks = 0 then w
      else executeInBackground e tasks
             (scheduler_log e (''Scheduling '' @ show_nat (length tasks) @ '' async tasks...'') w))"

definition scheduleAsyncTasks :: "env \<Rightarrow> AsyncTaskInfo list \<Rightarrow> world \<Rightarrow> world" where
  "scheduleAsyncTasks e tasks w = schedule e tasks w"

text \<open>
  The Context after each task of a list has run once, in list order, each on the Context the
  one before it left.
\<close>

definition ctx_through :: "AsyncTaskInfo list \<Rightarrow> Context \<Rightarrow> Context" where
  "ctx_through tasks c = foldl (\<lambda>c t. ctx_after (task_fn t c)) c tasks"

text \<open>
  Two tasks as in examples/esm/04-async-tasks: sending the mail fails, the analytics update
  marks the Context. The response was sent before they run.
\<close>

definition send_email :: AsyncTaskInfo where
  "send_email =
     \<lparr>task_name = ''send-email'',
      task_path = ''/features/users/@post/async-tasks/send-email.js'',
      task_fn = (\<lambda>c. \<lparr>thrown = Some (JErr (ErrorObj Error_cls ''SMTP connection refused'' [] [])),
                       ctx_after = c, elapsed = 2000\<rparr>)\<rparr>"

definition update_analytics :: AsyncTaskInfo where
  "update_analytics =
     \<lparr>task_name = ''update-analytics'',
      task_path = ''/features/users/@post/async-tasks/update-analytics.js'',
      task_fn = (\<lambda>c. \<lparr>thrown = None, ctx_after = AList.update ''analytics'' (JBool True) c,
                       elapsed = 1000\<rparr>)\<rparr>"

definition sent_response :: response where
  "sent_response =
     \<lparr>headersSent = True, res_statusCode = JNum 201,
      res_headers = [(''Content-Type'', ''application/json'')],
      res_body = Some (JsObj [(''success'', JsBool True)])\<rparr>"

definition after_response :: world where
  "after_response =
     \<lparr>w_ctx = [(''email'', JStr ''test@example.com'')], w_res = sent_response, w_globals = [],
      w_console = [], w_now = 0\<rparr>"

section \<open>The Step Pipeline and its retry protocol\<close>

text \<open>
  What the user's functions of a route are given and what they leave behind. A step and the
  context initializer are called with (Context, request, response); the module-level variables
  of the user's code are the fourth argument. The result says whether a value was thrown and
  gives the Context, the response and the variables as the call left them.
\<close>

record request =
  req_method :: string
  req_url :: string
  req_body :: jsval

record user_result =
  u_thrown :: "jsval option"
  u_ctx :: Context
  u_res :: response
  u_globals :: Context

text \<open>The Retry Directive of the data model: {delay in milliseconds; maximum attempts}.\<close>

record RetryDirective =
  delay :: nat
  maxAttempts :: nat

text \<open>An error hook may also return a Retry Directive.\<close>

record hook_result = user_result +
  h_retry :: "RetryDirective option"

type_synonym user_fn = "Context \<Rightarrow> request \<Rightarrow> response \<Rightarrow> Context \<Rightarrow> user_result"

type_synonym hook_fn = "jsval \<Rightarrow> Context \<Rightarrow> request \<Rightarrow> response \<Rightarrow> Context \<Rightarrow> hook_result"

text \<open>The Step Descriptor and the Route Definition of the data model.\<close>

record StepInfo =
  step_number :: int
  step_name :: string
  step_path :: string
  step_fn :: user_fn

record RouteDefinition =
  route_method :: string
  route_path :: string
  route_steps :: "StepInfo list"
  route_asyncTasks :: "AsyncTaskInfo list"
  contextInitializer :: "user_fn option"
  onError :: "hook_fn option"

text \<open>
  The calls a pipeline makes, in order: a step (by its position in the route), a value a step or
  the hook threw, the hook (with its first argument), the wait before a retry, and the hand-over
  to the Async Task Scheduler.
\<close>

datatype event =
    StepCall nat
  | Thrown jsval
  | HookCall jsval
  | Wait nat
  | AsyncScheduled

text \<open>
  The state of one request in the pipeline: the world, the attempt counter that lives as long as
  the Context (the user's functions do not write it), and the calls made so far.
\<close>

record pstate = world +
  attempts :: nat
  events :: "event list"

datatype outcome = Completed | Escalated jsval

definition apply_user :: "user_result \<Rightarrow> pstate \<Rightarrow> pstate" where
  "apply_user r s = s\<lparr>w_ctx := u_ctx r, w_res := u_res r, w_globals := u_globals r\<rparr>"

definition step_descriptor :: "StepInfo \<Rightarrow> jsval" where
  "step_descriptor st =
     JObj [(''number'', JNum (step_number st)), (''name'', JStr (step_name st)),
           (''path'', JStr (step_path st))]"

text \<open>
  Modelled from the spec: the Feature Error a failed step is wrapped in, "built from the thrown
  value, the current Step Descriptor, and the Context", with the status code "derived from the
  originating error (defaulting to 500 only when no status code is discoverable)". The message
  is the one of the thrown value, as in the tests.
\<close>

definition wrap_error :: "jsval \<Rightarrow> jsval \<Rightarrow> Context \<Rightarrow> error" where
  "wrap_error thrown_value step c =
     FeatureError [] (message_slot (get thrown_value ''message'')) thrown_value step (JObj c)
       (if hasStatusCode thrown_value then get thrown_value ''statusCode'' else JNum 500)"

text \<open>
  Modelled from the spec: state \<open>Running(i)\<close> of the Step Pipeline (feature/index.ts and the
  step executor are missing). Step \<open>i\<close> is invoked with (Context, request, response); it
  throws (the pipeline fails with the thrown value and the step), or it has written the
  response (the pipeline completes and the later steps are skipped), or the pipeline goes on
  to step \<open>i + 1\<close>, and completes after the last step.
\<close>

datatype steps_outcome = AllDone | Responded | Threw jsval StepInfo

fun run_steps :: "request \<Rightarrow> StepInfo list \<Rightarrow> nat \<Rightarrow> pstate \<Rightarrow> steps_outcome \<times> pstate" where
  "run_steps req [] i s = (AllDone, s)"
| "run_steps req (st # rest) i s =
     (let r = step_fn st (w_ctx s) req (w_res s) (w_globals s);
          s' = (apply_user r s)\<lparr>events := events s @ [StepCall i]\<rparr>
      in case u_thrown r of
           Some e \<Rightarrow> (Threw e st, s'\<lparr>events := events s' @ [Thrown e]\<rparr>)
         | None \<Rightarrow> if headersSent (w_res s') then (Responded, s') else run_steps req rest (Suc i) s')"

text \<open>
  The first argument of the error hook, computed from the thrown value and the Feature Error
  that wraps it. The spec's sentence hands the hook "the original thrown error - not the
  Feature Error wrapper"; the hooks of test/feature-on-error-original-error.test.ts read
  \<open>error.originalError\<close>, which only the wrapper has.
\<close>

definition original_error_arg :: "jsval \<Rightarrow> error \<Rightarrow> jsval" where
  "original_error_arg thrown_value fe = thrown_value"

definition feature_error_arg :: "jsval \<Rightarrow> error \<Rightarrow> jsval" where
  "feature_error_arg thrown_value fe = JErr fe"

text \<open>
  Modelled from the spec: states \<open>Failed\<close> and \<open>Retrying\<close>. Without a hook the failure
  escalates. Otherwise the hook is invoked with (its argument, the Context, request, response).
  A hook that throws escalates with what it threw; a hook that has written the response
  completes the pipeline; a hook that returns nothing escalates; a Retry Directive increments
  the attempt counter, and the pipeline runs again from step 0 on the same Context after the
  delay if the counter is below the directive's maximum, and escalates with the most recent
  error otherwise.
\<close>

datatype failed_outcome = Final outcome pstate | Again pstate

definition failed_transition ::
  "(jsval \<Rightarrow> error \<Rightarrow> jsval) \<Rightarrow> RouteDefinition \<Rightarrow> request \<Rightarrow> jsval \<Rightarrow> StepInfo \<Rightarrow> pstate \<Rightarrow> failed_outcome" where
  "failed_transition hook_arg f req e st s1 =
     (let fe = wrap_error e (step_descriptor st) (w_ctx s1) in
      case onError f of
        None \<Rightarrow> Final (Escalated (JErr fe)) s1
      | Some hook \<Rightarrow>
          (let arg = hook_arg e fe;
               h = hook arg (w_ctx s1) req (w_res s1) (w_globals s1);
               s2 = (apply_user (user_result.truncate h) s1)\<lparr>events := events s1 @ [HookCall arg]\<rparr>
           in case u_thrown h of
                Some e2 \<Rightarrow> Final (Escalated e2) (s2\<lparr>events := events s2 @ [Thrown e2]\<rparr>)
              | None \<Rightarrow>
                  if headersSent (w_res s2) then Final Completed s2
                  else (case h_retry h of
                          None \<Rightarrow> Final (Escalated (JErr fe)) s2
                        | Some d \<Rightarrow>
                            (let s3 = s2\<lparr>attempts := attempts s2 + 1\<rparr> in
                             if attempts s3 < maxAttempts d
                             then Again (s3\<lparr>w_now := w_now s3 + delay d,
                                             events := events s3 @ [Wait (delay d)]\<rparr>)
                             else Final (Escalated (JErr fe)) s3))))"

text \<open>
  One request from \<open>Running(0)\<close> on. Each run of the steps uses one unit of fuel; \<open>None\<close>
  says that the fuel ran out before the pipeline completed or escalated.
\<close>

fun run_pipeline ::
  "(jsval \<Rightarrow> error \<Rightarrow> jsval) \<Rightarrow> nat \<Rightarrow> RouteDefinition \<Rightarrow> request \<Rightarrow> pstate \<Rightarrow> (outcome \<times> pstate) option" where
  "run_pipeline hook_arg 0 f req s = None"
| "run_pipeline hook_arg (Suc fuel) f req s =
     (case run_steps req (route_steps f) 0 s of
        (AllDone, s1) \<Rightarrow> Some (Completed, s1)
      | (Responded, s1) \<Rightarrow> Some (Completed, s1)
      | (Threw e st, s1) \<Rightarrow>
          (case failed_transition hook_arg f req e st s1 of
             Final out s2 \<Rightarrow> Some (out, s2)
           | Again s2 \<Rightarrow> run_pipeline hook_arg fuel f req s2))"

text \<open>
  Modelled from the spec: state \<open>Initializing\<close> and what follows \<open>Completed\<close>. The optional
  context initializer runs on a fresh Context; if it throws, the pipeline fails with no step
  and the hook is not invoked. A completed pipeline hands its async tasks to the scheduler once.
\<close>

definition start_state :: "world \<Rightarrow> pstate" where
  "start_state w = world.extend (w\<lparr>w_ctx := []\<rparr>) \<lparr>attempts = 0, events = []\<rparr>"

definition execute ::
  "env \<Rightarrow> (jsval \<Rightarrow> error \<Rightarrow> jsval) \<Rightarrow> nat \<Rightarrow> RouteDefinition \<Rightarrow> request \<Rightarrow> world \<Rightarrow> (outcome \<times> pstate) option" where
  "execute e hook_arg fuel f req w =
     (let s0 = start_state w;
          started = (case contextInitializer f of
                       None \<Rightarrow> Inr s0
                     | Some init \<Rightarrow>
                         (let r = init (w_ctx s0) req (w_res s0) (w_globals s0)
                          in case u_thrown r of
                               Some e0 \<Rightarrow> Inl (e0, (apply_user r s0)\<lparr>events := [Thrown e0]\<rparr>)
                             | None \<Rightarrow> Inr (apply_user r s0)))
      in case started of
           Inl (e0, s) \<Rightarrow> Some (Escalated (JErr (wrap_error e0 JUndefined (w_ctx s))), s)
         | Inr s \<Rightarrow>
             (case run_pipeline hook_arg fuel f req s of
                None \<Rightarrow> None
              | Some (Completed, s1) \<Rightarrow>
                  (let w1 = scheduleAsyncTasks e (route_asyncTasks f) (world.truncate s1)
                   in Some (Completed, world.extend w1
                              \<lparr>attempts = attempts s1, events = events s1 @ [AsyncScheduled]\<rparr>))
              | Some (Escalated v, s1) \<Rightarrow> Some (Escalated v, s1)))"

text \<open>How often step \<open>i\<close> was invoked, and the values thrown, in a list of calls.\<close>

definition calls :: "nat \<Rightarrow> event list \<Rightarrow> nat" where
  "calls i evs = length (filter (\<lambda>ev. ev = StepCall i) evs)"

fun thrown_values :: "event list \<Rightarrow> jsval list" where
  "thrown_values [] = []"
| "thrown_values (Thrown e # evs) = e # thrown_values evs"
| "thrown_values (ev # evs) = thrown_values evs"

text \<open>Every Retry Directive the route's hook returns has a maximum of at most \<open>N\<close> attempts.\<close>

definition bounded_hook :: "nat \<Rightarrow> RouteDefinition \<Rightarrow> bool" where
  "bounded_hook N f =
     (\<forall>hook arg c rq r g d.
        onError f = Some hook \<and> h_retry (hook arg c rq r g) = Some d \<longrightarrow> maxAttempts d \<le> N)"

definition result_state :: "failed_outcome \<Rightarrow> pstate" where
  "result_state x = (case x of Final out s \<Rightarrow> s | Again s \<Rightarrow> s)"

text \<open>
  The route of the first test of test/feature-on-error-original-error.test.ts: the step
  \<open>100-check-stock.js\<close> throws \<open>new BusinessError('Out of stock', 'OUT_OF_STOCK')\<close> (the
  error \<open>stock_error\<close> above), and the hook
  answers 400 when \<open>error.originalError.code\<close> is \<open>OUT_OF_STOCK\<close> and returns nothing otherwise.
\<close>

definition check_stock :: StepInfo where
  "check_stock =
     \<lparr>step_number = 100, step_name = ''100-check-stock.js'',
      step_path = ''/features/api/orders/@post/steps/100-check-stock.js'',
      step_fn = (\<lambda>c rq r g.
         \<lparr>u_thrown = Some (JErr stock_error), u_ctx = c, u_res = r, u_globals = g\<rparr>)\<rparr>"

definition orders_onError :: hook_fn where
  "orders_onError error c rq r g =
     (if truthy (get error ''originalError'')
         \<and> get (get error ''originalError'') ''code'' = JStr ''OUT_OF_STOCK''
      then \<lparr>u_thrown = None, u_ctx = c,
            u_res = res_end
                      (JSON_stringify
                         (JObj [(''success'', JBool False),
                                (''errorCode'', get (get error ''originalError'') ''code''),
                                (''message'', JStr ''Stock not available''),
                                (''originalMessage'', get (get error ''originalError'') ''message'')]))
                      (setHeader ''Content-Type'' ''application/json'' (r\<lparr>res_statusCode := JNum 400\<rparr>)),
            u_globals = g, h_retry = None\<rparr>
      else \<lparr>u_thrown = None, u_ctx = c, u_res = r, u_globals = g, h_retry = None\<rparr>)"

definition orders_route :: RouteDefinition where
  "orders_route =
     \<lparr>route_method = ''POST'', route_path = ''/api/orders'', route_steps = [check_stock],
      route_asyncTasks = [], contextInitializer = None, onError = Some orders_onError\<rparr>"

definition orders_request :: request where
  "orders_request = \<lparr>req_method = ''POST'', req_url = ''/api/orders'', req_body = JUndefined\<rparr>"

text \<open>What the test expects of the response.\<close>

definition orders_expected :: "response \<Rightarrow> bool" where
  "orders_expected r =
     (res_statusCode r = JNum 400
      \<and> (case res_body r of
            None \<Rightarrow> False
          | Some b \<Rightarrow> member b ''success'' = Some (JsBool False)
                      \<and> member b ''errorCode'' = Some (JsStr ''OUT_OF_STOCK'')
                      \<and> member b ''message'' = Some (JsStr ''Stock not available'')))"

definition fresh_world :: world where
  "fresh_world =
     \<lparr>w_ctx = [], w_res = mock_response, w_globals = [], w_console = [], w_now = 0\<rparr>"

text \<open>
  The route of examples/cjs/05-error-handling: the payment step throws
  \<open>new Error('NETWORK_ERROR')\<close> every time, and the hook returns
  \<open>numflow.retry({maxAttempts: n, delay: 1000})\<close> for that message.
\<close>

definition network_error :: jsval where
  "network_error = JErr (ErrorObj Error_cls ''NETWORK_ERROR'' ''Error: NETWORK_ERROR'' [])"

definition process_payment :: StepInfo where
  "process_payment =
     \<lparr>step_number = 100, step_name = ''100-process.js'',
      step_path = ''/features/payments/@post/steps/100-process.js'',
      step_fn = (\<lambda>c rq r g. \<lparr>u_thrown = Some network_error, u_ctx = c, u_res = r, u_globals = g\<rparr>)\<rparr>"

definition retry_onError :: "nat \<Rightarrow> hook_fn" where
  "retry_onError n error c rq r g =
     (if get error ''message'' = JStr ''NETWORK_ERROR''
      then \<lparr>u_thrown = None, u_ctx = c, u_res = r, u_globals = g,
            h_retry = Some \<lparr>delay = 1000, maxAttempts = n\<rparr>\<rparr>
      else \<lparr>u_thrown = None, u_ctx = c, u_res = r, u_globals = g, h_retry = None\<rparr>)"

definition payments_route :: "nat \<Rightarrow> RouteDefinition" where
  "payments_route n =
     \<lparr>route_method = ''POST'', route_path = ''/payments'', route_steps = [process_payment],
      route_asyncTasks = [], contextInitializer = None, onError = Some (retry_onError n)\<rparr>"

definition payments_request :: request where
  "payments_request = \<lparr>req_method = ''POST'', req_url = ''/payments'', req_body = JObj [(''amount'', JNum 100)]\<rparr>"

text \<open>One failed attempt of the payment route, and the wait before the next one.\<close>

definition payment_attempt :: "pstate \<Rightarrow> pstate" where
  "payment_attempt s =
     s\<lparr>events := events s @ [StepCall 0, Thrown network_error,
          HookCall (JErr (wrap_error network_error (step_descriptor process_payment) (w_ctx s)))],
       attempts := Suc (attempts s)\<rparr>"

definition payment_wait :: "pstate \<Rightarrow> pstate" where
  "payment_wait s = s\<lparr>w_now := w_now s + 1000, events := events s @ [Wait 1000]\<rparr>"

text \<open>The response the hook of the orders route writes.\<close>

definition stock_not_available :: "response \<Rightarrow> response" where
  "stock_not_available r =
     res_end
       (JSON_stringify
          (JObj [(''success'', JBool False),
                 (''errorCode'', JStr ''OUT_OF_STOCK''),
                 (''message'', JStr ''Stock not available''),
                 (''originalMessage'', JStr ''Out of stock'')]))
       (setHeader ''Content-Type'' ''application/json'' (r\<lparr>res_statusCode := JNum 400\<rparr>))"

text \<open>
  The route of the third test of test/feature-on-error-original-error.test.ts. The step counts
  its calls in the module variable \<open>attemptCount\<close>, throws
  \<open>new BusinessError('Network timeout', 'NETWORK_ERROR')\<close> on the first call and answers 200 with
  the count afterwards; the hook returns \<open>numflow.retry({delay: 10, maxAttempts: 2})\<close> when
  \<open>error.originalError.code\<close> is \<open>NETWORK_ERROR\<close>, and answers 500 otherwise.
\<close>

definition timeout_error :: error where
  "timeout_error = BusinessError ''BusinessError: Network timeout'' ''Network timeout'' (JStr ''NETWORK_ERROR'')"

definition res_json :: "int \<Rightarrow> jsval \<Rightarrow> response \<Rightarrow> response" where
  "res_json code obj r =
     res_end (JSON_stringify obj)
       (setHeader ''Content-Type'' ''application/json'' (r\<lparr>res_statusCode := JNum code\<rparr>))"

definition process_payment_counting :: StepInfo where
  "process_payment_counting =
     \<lparr>step_number = 100, step_name = ''100-process-payment.js'',
      step_path = ''/features/api/payments/@post/steps/100-process-payment.js'',
      step_fn = (\<lambda>c rq r g.
         (let attemptCount = (case map_of g ''attemptCount'' of Some (JNum k) \<Rightarrow> k + 1 | _ \<Rightarrow> 1);
              g' = AList.update ''attemptCount'' (JNum attemptCount) g
          in if attemptCount = 1
             then \<lparr>u_thrown = Some (JErr timeout_error), u_ctx = c, u_res = r, u_globals = g'\<rparr>
             else \<lparr>u_thrown = None, u_ctx = c,
                   u_res = res_json 200 (JObj [(''success'', JBool True), (''attempts'', JNum attemptCount)]) r,
                   u_globals = g'\<rparr>))\<rparr>"

definition fallback_onError :: hook_fn where
  "fallback_onError error c rq r g =
     (if truthy (get error ''originalError'')
         \<and> get (get error ''originalError'') ''code'' = JStr ''NETWORK_ERROR''
      then \<lparr>u_thrown = None, u_ctx = AList.update ''fallbackProvider'' (JStr ''backup'') c,
            u_res = r, u_globals = g, h_retry = Some \<lparr>delay = 10, maxAttempts = 2\<rparr>\<rparr>
      else \<lparr>u_thrown = None, u_ctx = c,
            u_res = res_end (JSON_stringify (JObj [(''error'', get error ''message'')]))
                      (setHeader ''Content-Type'' ''application/json'' (r\<lparr>res_statusCode := JNum 500\<rparr>)),
            u_globals = g, h_retry = None\<rparr>)"

definition retry_test_route :: RouteDefinition where
  "retry_test_route =
     \<lparr>route_method = ''POST'', route_path = ''/api/payments'', route_steps = [process_payment_counting],
      route_asyncTasks = [], contextInitializer = None, onError = Some fallback_onError\<rparr>"

definition retry_test_world :: world where
  "retry_test_world =
     \<lparr>w_ctx = [], w_res = mock_response, w_globals = [(''attemptCount'', JNum 0)], w_console = [],
      w_now = 0\<rparr>"

section \<open>Paths and their segments\<close>

text \<open>\<open>s.split(c)\<close>: the pieces of a string between the occurrences of a character.\<close>

fun split :: "char \<Rightarrow> string \<Rightarrow> string list" where
  "split c [] = [[]]"
| "split c (x # xs) =
     (if x = c then [] # split c xs
      else (case split c xs of [] \<Rightarrow> [[x]] | y # ys \<Rightarrow> (x # y) # ys))"

text \<open>The non-empty pieces of a path between slashes.\<close>

definition segments :: "string \<Rightarrow> string list" where
  "segments p = filter (\<lambda>s. s \<noteq> []) (split CHR ''/'' p)"

text \<open>The absolute path of a list of directory names, and a route path (\<open>/\<close> for no segment).\<close>

definition abs_path :: "string list \<Rightarrow> string" where
  "abs_path segs = concat (map (\<lambda>s. CHR ''/'' # s) segs)"

definition path_of_segments :: "string list \<Rightarrow> string" where
  "path_of_segments segs = (if segs = [] then ''/'' else abs_path segs)"

text \<open>Names that can stand between two slashes: not empty, and without a slash.\<close>

definition well_formed :: "string list \<Rightarrow> bool" where
  "well_formed segs = (\<forall>s \<in> set segs. s \<noteq> [] \<and> CHR ''/'' \<notin> set s)"

section \<open>The Convention Resolver\<close>

text \<open>
  Modelled from the spec: \<open>ConventionResolver.resolveConventions\<close> of feature/convention.ts,
  which is missing; the tests call it with the path of a file and the features root. The
  spec's contract is \<open>resolve(filePath, featuresRoot?) -> {method, path, stepsDir|null,
  asyncTasksDir|null}\<close>, failing "when no enclosing features root directory can be located and
  none is supplied explicitly". The method is that of "the nearest ancestor directory whose
  name matches an @verb pattern"; "every directory segment between the features root
  (exclusive) and the method boundary (exclusive) becomes a path segment; a segment wrapped in
  square brackets becomes a named parameter segment; all other segments are literal. Segments
  are joined in directory order, preceded by /; an empty segment list yields /". The verbs are
  those the spec names; a root that is not supplied is the nearest ancestor called
  \<open>features\<close>, as \<open>findFeaturesBaseDir\<close> finds it in the tests. The file system is asked
  whether a directory exists. The lookup cache, which only stores results, is left out.
\<close>

datatype resolve_error = NoFeaturesRoot string | NotUnderRoot string | NoMethodBoundary string

record conventions =
  conv_method :: string
  conv_path :: string
  conv_steps :: "string option"
  conv_asyncTasks :: "string option"

definition http_verbs :: "(string \<times> string) list" where
  "http_verbs = [(''get'', ''GET''), (''post'', ''POST''), (''put'', ''PUT''),
                 (''delete'', ''DELETE''), (''patch'', ''PATCH'')]"

definition verb_of_segment :: "string \<Rightarrow> string option" where
  "verb_of_segment seg =
     (case seg of [] \<Rightarrow> None | c # v \<Rightarrow> if c = CHR ''@'' then map_of http_verbs v else None)"

text \<open>The method boundary nearest to the file: the last \<open>@verb\<close> among the directories.\<close>

fun find_boundary :: "string list \<Rightarrow> (nat \<times> string) option" where
  "find_boundary [] = None"
| "find_boundary (d # ds) =
     (case find_boundary ds of
        Some (i, m) \<Rightarrow> Some (Suc i, m)
      | None \<Rightarrow> (case verb_of_segment d of Some m \<Rightarrow> Some (0, m) | None \<Rightarrow> None))"

fun find_features_root :: "string list \<Rightarrow> nat option" where
  "find_features_root [] = None"
| "find_features_root (d # ds) =
     (case find_features_root ds of
        Some i \<Rightarrow> Some (Suc i)
      | None \<Rightarrow> if d = ''features'' then Some 0 else None)"

definition path_segment :: "string \<Rightarrow> string" where
  "path_segment seg =
     (if 2 \<le> length seg \<and> hd seg = CHR ''['' \<and> last seg = CHR '']''
      then CHR '':'' # butlast (tl seg) else seg)"

definition resolveConventions ::
  "(string \<Rightarrow> bool) \<Rightarrow> string \<Rightarrow> string option \<Rightarrow> resolve_error + conventions" where
  "resolveConventions is_dir filePath featuresRoot =
     (let dirs = butlast (segments filePath);
          root_len = (case featuresRoot of
                        Some r \<Rightarrow> if take (length (segments r)) dirs = segments r
                                   then Inr (length (segments r)) else Inl (NotUnderRoot filePath)
                      | None \<Rightarrow> (case find_features_root dirs of
                                    Some i \<Rightarrow> Inr (Suc i)
                                  | None \<Rightarrow> Inl (NoFeaturesRoot filePath)))
      in case root_len of
           Inl err \<Rightarrow> Inl err
         | Inr n \<Rightarrow>
             (case find_boundary (drop n dirs) of
                None \<Rightarrow> Inl (NoMethodBoundary filePath)
              | Some (i, m) \<Rightarrow>
                  (let boundary = abs_path (take (Suc (n + i)) dirs)
                   in Inr \<lparr>conv_method = m,
                           conv_path = path_of_segments (map path_segment (take i (drop n dirs))),
                           conv_steps = (if is_dir (boundary @ ''/steps'') then Some ''./steps'' else None),
                           conv_asyncTasks = (if is_dir (boundary @ ''/async-tasks'')
                                              then Some ''./async-tasks'' else None)\<rparr>)))"

section \<open>The route priority ranking of the Feature Scanner\<close>

text \<open>
  Modelled from the spec: the ranking \<open>scan\<close> of feature/feature-scanner.ts applies to the
  routes it discovered (the scanner is missing). "Priority is computed per route as a tuple:
  (count of literal segments, descending) then (count of parameter segments, ascending) then
  (declaration order / alphabetical, ascending) as a final tie-break": the third component is
  the path in alphabetical order, and the sort is stable, so routes with the same path keep
  their declaration order.
\<close>

definition is_param :: "string \<Rightarrow> bool" where
  "is_param seg = (case seg of [] \<Rightarrow> False | c # cs \<Rightarrow> c = CHR '':'')"

definition literal_count :: "string \<Rightarrow> nat" where
  "literal_count p = length (filter (\<lambda>s. \<not> is_param s) (segments p))"

definition param_count :: "string \<Rightarrow> nat" where
  "param_count p = length (filter is_param (segments p))"

definition priority :: "string \<Rightarrow> int \<times> nat \<times> string" where
  "priority p = (- int (literal_count p), param_count p, p)"

definition sortFeaturesByPriority :: "RouteDefinition list \<Rightarrow> RouteDefinition list" where
  "sortFeaturesByPriority routes = sort_key (\<lambda>r. priority (route_path r)) routes"

text \<open>A route with only a method and a path, for the examples.\<close>

definition get_route :: "string \<Rightarrow> RouteDefinition" where
  "get_route p =
     \<lparr>route_method = ''GET'', route_path = p, route_steps = [], route_asyncTasks = [],
      contextInitializer = None, onError = None\<rparr>"

section \<open>Properties of the error response emitter\<close>

subsection \<open>Serialisation of an object without repeated keys\<close>

lemma map_of_stringify_members:
  "distinct (map fst ps) \<Longrightarrow>
   map_of (stringify_members ps) k = (case map_of ps k of None \<Rightarrow> None | Some v \<Rightarrow> JSON_stringify v)"
proof (induction ps)
  case Nil
  then show ?case by simp
next
  case (Cons p ps)
  obtain k' v' where p: "p = (k', v')" by (cases p)
  have fst_members: "fst ` set (stringify_members qs) \<subseteq> fst ` set qs" for qs
    by (induction qs) (auto simp: member_json_def split: option.splits)
  show ?case
  proof (cases "k' = k")
    case True
    with Cons.prems p have "k \<notin> fst ` set ps" by auto
    with fst_members have "k \<notin> fst ` set (stringify_members ps)" by blast
    then have none: "map_of (stringify_members ps) k = None"
      by (simp add: map_of_eq_None_iff)
    show ?thesis using True p none
      by (simp add: member_json_def map_add_def split: option.splits)
  next
    case False
    with Cons p show ?thesis
      by (simp add: member_json_def map_add_def split: option.splits)
  qed
qed

subsection \<open>The copy loops\<close>

lemma map_of_copy_loop:
  "map_of (foldl (\<lambda>a key. if key \<in> S then a else AList.update key (f key) a) acc ks) k =
     (if k \<in> set ks \<and> k \<notin> S then Some (f k) else map_of acc k)"
  by (induction ks arbitrary: acc) (auto simp: update_conv')

lemma distinct_copy_loop:
  "distinct (map fst acc) \<Longrightarrow>
   distinct (map fst (foldl (\<lambda>a key. if key \<in> S then a else AList.update key (f key) a) acc ks))"
  by (induction ks arbitrary: acc) (auto simp: distinct_update)

lemma map_of_copy_custom:
  "map_of (copy_custom oe acc) k =
     (if k \<in> set (Object_keys oe) \<and> k \<notin> set standard_keys then Some (get oe k) else map_of acc k)"
  unfolding copy_custom_def by (rule map_of_copy_loop)

lemma distinct_copy_custom:
  "distinct (map fst acc) \<Longrightarrow> distinct (map fst (copy_custom oe acc))"
  unfolding copy_custom_def by (rule distinct_copy_loop)

lemma distinct_copy_known:
  "distinct (map fst acc) \<Longrightarrow> distinct (map fst (copy_known e acc))"
  by (simp add: copy_known_def Let_def distinct_update)

lemma map_of_copy_known_other:
  "k \<notin> {''code'', ''validationErrors'', ''suggestion'', ''docUrl''} \<Longrightarrow>
   map_of (copy_known e acc) k = map_of acc k"
  by (simp add: copy_known_def Let_def update_conv')

lemma feature_error_not_execution_error:
  "FeatureError_cls \<in> set (ancestors c) \<Longrightarrow> FeatureExecutionError_cls \<notin> set (ancestors c)"
  by (induction c) auto

lemma distinct_error_object: "distinct (map fst (error_object err inc))"
  by (simp add: error_object_def Let_def distinct_update distinct_copy_custom distinct_copy_known)

lemma body_of_send:
  "\<not> headersSent res \<Longrightarrow>
   res_body (fst (sendErrorResponse err (res, con) inc)) =
     Some (JsObj [(''error'', JsObj (stringify_members (error_object err inc)))])"
  by (simp add: sendErrorResponse_def Let_def res_end_def setHeader_def member_json_def)

lemma member_error_object:
  "map_of (stringify_members (error_object err inc)) k =
     (case map_of (error_object err inc) k of None \<Rightarrow> None | Some v \<Rightarrow> JSON_stringify v)"
  by (simp add: map_of_stringify_members distinct_error_object)

lemma custom_in_error_object:
  assumes fe: "instanceof err FeatureError_cls"
      and oe: "truthy (err_get err ''originalError'')"
      and k: "k \<in> set (Object_keys (err_get err ''originalError''))" "k \<notin> set standard_keys"
  shows "map_of (error_object err inc) k = Some (get (err_get err ''originalError'') k)"
proof -
  have nfe: "\<not> instanceof err FeatureExecutionError_cls"
    using fe feature_error_not_execution_error by (auto simp: instanceof_def)
  have "k \<noteq> ''stack''" using k(2) by (auto simp: standard_keys_def)
  then show ?thesis using fe oe k nfe
    by (simp add: error_object_def Let_def map_of_copy_custom update_conv')
qed

lemma name_not_in_error_object:
  assumes fe: "instanceof err FeatureError_cls"
  shows "map_of (error_object err inc) ''name'' = None"
proof -
  have nfe: "\<not> instanceof err FeatureExecutionError_cls"
    using fe feature_error_not_execution_error by (auto simp: instanceof_def)
  show ?thesis using fe nfe
    by (simp add: error_object_def Let_def map_of_copy_custom map_of_copy_known_other update_conv'
        standard_keys_def)
qed

lemma stack_in_error_object:
  assumes fe: "instanceof err FeatureError_cls"
  shows "map_of (error_object err inc) ''stack'' =
         (if inc \<and> truthy (err_get err ''stack'') then Some (err_get err ''stack'') else None)"
proof -
  have nfe: "\<not> instanceof err FeatureExecutionError_cls"
    using fe feature_error_not_execution_error by (auto simp: instanceof_def)
  show ?thesis using fe nfe
    by (simp add: error_object_def Let_def map_of_copy_custom map_of_copy_known_other update_conv'
        standard_keys_def)
qed

subsection \<open>C1: the custom properties of the original error reach the response\<close>

text \<open>
  C1. Let \<open>err\<close> be a Feature Error whose \<open>originalError\<close> is set, and let the response not be
  sent yet. Then \<open>sendErrorResponse\<close> writes the JSON body \<open>{"error": eo}\<close>, and for every
  enumerable own property \<open>k\<close> of the original error other than message, stack, name,
  statusCode and isOperational, reading \<open>eo.k\<close> gives what \<open>JSON.stringify\<close> writes for the
  original error's value (so a \<open>code\<close> and a \<open>validationErrors\<close> map arrive as they are, and a
  value that is \<open>undefined\<close> reads as \<open>undefined\<close>); \<open>eo\<close> has a \<open>stack\<close> only when
  \<open>includeStack\<close> is on, and then it is the stack of \<open>err\<close>; \<open>eo\<close> never has a \<open>name\<close>.
\<close>

theorem sendErrorResponse_original_error_properties:
  assumes "instanceof err FeatureError_cls"
      and "truthy (err_get err ''originalError'')"
      and "\<not> headersSent res"
  shows "\<exists>eo. res_body (fst (sendErrorResponse err (res, con) includeStack)) = Some (JsObj [(''error'', eo)])
          \<and> (\<forall>k \<in> set (Object_keys (err_get err ''originalError'')).
                k \<notin> set standard_keys \<longrightarrow>
                member eo k = JSON_stringify (get (err_get err ''originalError'') k))
          \<and> (member eo ''stack'' \<noteq> None \<longrightarrow>
                includeStack \<and> member eo ''stack'' = JSON_stringify (err_get err ''stack''))
          \<and> member eo ''name'' = None"
proof -
  let ?eo = "JsObj (stringify_members (error_object err includeStack))"
  have b: "res_body (fst (sendErrorResponse err (res, con) includeStack)) = Some (JsObj [(''error'', ?eo)])"
    using assms(3) by (rule body_of_send)
  have c: "\<forall>k \<in> set (Object_keys (err_get err ''originalError'')).
                k \<notin> set standard_keys \<longrightarrow>
                member ?eo k = JSON_stringify (get (err_get err ''originalError'') k)"
    using custom_in_error_object [OF assms(1,2)] by (simp add: member_error_object)
  have s: "member ?eo ''stack'' \<noteq> None \<longrightarrow>
             includeStack \<and> member ?eo ''stack'' = JSON_stringify (err_get err ''stack'')"
    using stack_in_error_object [OF assms(1)] by (simp add: member_error_object)
  have n: "member ?eo ''name'' = None"
    using name_not_in_error_object [OF assms(1)] by (simp add: member_error_object)
  from b c s n show ?thesis by blast
qed

text \<open>
  The theorem at the two Feature Errors of the test: the body carries the \<open>code\<close> of the
  wrapped \<open>BusinessError\<close>, and the \<open>validationErrors\<close> map of the wrapped
  \<open>ValidationError\<close>, neither a \<open>stack\<close> nor a \<open>name\<close>.
\<close>

theorem sendErrorResponse_original_error_properties_witness:
  "instanceof stock_feature_error FeatureError_cls
   \<and> truthy (err_get stock_feature_error ''originalError'')
   \<and> instanceof invalid_feature_error FeatureError_cls
   \<and> truthy (err_get invalid_feature_error ''originalError'')
   \<and> \<not> headersSent mock_response
   \<and> Object_keys (err_get stock_feature_error ''originalError'') =
        [''name'', ''statusCode'', ''isOperational'', ''suggestion'', ''docUrl'', ''code'']
   \<and> (\<exists>eo. res_body (fst (sendErrorResponse stock_feature_error (mock_response, []) False))
               = Some (JsObj [(''error'', eo)])
          \<and> member eo ''code'' = Some (JsStr ''OUT_OF_STOCK'')
          \<and> member eo ''stack'' = None
          \<and> member eo ''name'' = None)
   \<and> (\<exists>eo. res_body (fst (sendErrorResponse invalid_feature_error (mock_response, []) False))
               = Some (JsObj [(''error'', eo)])
          \<and> member eo ''validationErrors'' =
                Some (JsObj [(''email'', JsArr [JsStr ''Email is required'', JsStr ''Invalid format'']),
                             (''password'', JsArr [JsStr ''Too short''])])
          \<and> member eo ''stack'' = None
          \<and> member eo ''name'' = None)"
proof -
  have h1: "instanceof stock_feature_error FeatureError_cls"
    by (simp add: stock_feature_error_def FeatureError_def instanceof_def)
  have h2: "truthy (err_get stock_feature_error ''originalError'')"
    by (simp add: stock_feature_error_def FeatureError_def err_get_def)
  have h3: "\<not> headersSent mock_response"
    by (simp add: mock_response_def)
  have oe: "err_get stock_feature_error ''originalError'' = JErr stock_error"
    by (simp add: stock_feature_error_def FeatureError_def err_get_def)
  have keys: "Object_keys (JErr stock_error) =
        [''name'', ''statusCode'', ''isOperational'', ''suggestion'', ''docUrl'', ''code'']"
    by (simp add: stock_error_def BusinessError_def HttpError_def Let_def)
  have code: "err_get stock_error ''code'' = JStr ''OUT_OF_STOCK''"
    by (simp add: stock_error_def BusinessError_def HttpError_def Let_def err_get_def)
  from sendErrorResponse_original_error_properties [OF h1 h2 h3, of "[]" False]
  obtain eo where eo:
      "res_body (fst (sendErrorResponse stock_feature_error (mock_response, []) False))
         = Some (JsObj [(''error'', eo)])"
      "\<forall>k \<in> set (Object_keys (err_get stock_feature_error ''originalError'')).
          k \<notin> set standard_keys \<longrightarrow>
          member eo k = JSON_stringify (get (err_get stock_feature_error ''originalError'') k)"
      "member eo ''stack'' \<noteq> None \<longrightarrow>
          False \<and> member eo ''stack'' = JSON_stringify (err_get stock_feature_error ''stack'')"
      "member eo ''name'' = None"
    by blast
  have mem: "''code'' \<in> set (Object_keys (err_get stock_feature_error ''originalError''))"
    unfolding oe keys by simp
  have nstd: "''code'' \<notin> set standard_keys"
    by (simp add: standard_keys_def)
  from eo(2) mem nstd
  have "member eo ''code'' = JSON_stringify (get (err_get stock_feature_error ''originalError'') ''code'')"
    by blast
  then have "member eo ''code'' = JSON_stringify (get (JErr stock_error) ''code'')"
    unfolding oe .
  then have c: "member eo ''code'' = Some (JsStr ''OUT_OF_STOCK'')"
    by (simp add: code)
  from eo(3) have s: "member eo ''stack'' = None" by blast
  have keys': "Object_keys (err_get stock_feature_error ''originalError'') =
        [''name'', ''statusCode'', ''isOperational'', ''suggestion'', ''docUrl'', ''code'']"
    unfolding oe by (rule keys)
  have first: "\<exists>eo. res_body (fst (sendErrorResponse stock_feature_error (mock_response, []) False))
               = Some (JsObj [(''error'', eo)])
          \<and> member eo ''code'' = Some (JsStr ''OUT_OF_STOCK'')
          \<and> member eo ''stack'' = None
          \<and> member eo ''name'' = None"
    using eo(1) c s eo(4) by blast
  have g1: "instanceof invalid_feature_error FeatureError_cls"
    by (simp add: invalid_feature_error_def FeatureError_def instanceof_def)
  have g2: "truthy (err_get invalid_feature_error ''originalError'')"
    by (simp add: invalid_feature_error_def FeatureError_def err_get_def)
  have oe2: "err_get invalid_feature_error ''originalError'' = JErr invalid_error"
    by (simp add: invalid_feature_error_def FeatureError_def err_get_def)
  have keys2: "''validationErrors'' \<in> set (Object_keys (JErr invalid_error))"
    by (simp add: invalid_error_def ValidationError_def HttpError_def Let_def)
  have ve: "err_get invalid_error ''validationErrors'' = field_errors"
    by (simp add: invalid_error_def ValidationError_def HttpError_def Let_def err_get_def)
  have fe: "JSON_stringify field_errors =
      Some (JsObj [(''email'', JsArr [JsStr ''Email is required'', JsStr ''Invalid format'']),
                   (''password'', JsArr [JsStr ''Too short''])])"
    by (simp add: field_errors_def member_json_def elem_json_def)
  from sendErrorResponse_original_error_properties [OF g1 g2 h3, of "[]" False]
  obtain eo2 where eo2:
      "res_body (fst (sendErrorResponse invalid_feature_error (mock_response, []) False))
         = Some (JsObj [(''error'', eo2)])"
      "\<forall>k \<in> set (Object_keys (err_get invalid_feature_error ''originalError'')).
          k \<notin> set standard_keys \<longrightarrow>
          member eo2 k = JSON_stringify (get (err_get invalid_feature_error ''originalError'') k)"
      "member eo2 ''stack'' \<noteq> None \<longrightarrow>
          False \<and> member eo2 ''stack'' = JSON_stringify (err_get invalid_feature_error ''stack'')"
      "member eo2 ''name'' = None"
    by blast
  have mem2: "''validationErrors'' \<in> set (Object_keys (err_get invalid_feature_error ''originalError''))"
    unfolding oe2 by (rule keys2)
  have nstd2: "''validationErrors'' \<notin> set standard_keys"
    by (simp add: standard_keys_def)
  from eo2(2) mem2 nstd2
  have "member eo2 ''validationErrors''
          = JSON_stringify (get (err_get invalid_feature_error ''originalError'') ''validationErrors'')"
    by blast
  then have "member eo2 ''validationErrors'' = JSON_stringify (err_get invalid_error ''validationErrors'')"
    unfolding oe2 by simp
  then have v: "member eo2 ''validationErrors'' =
      Some (JsObj [(''email'', JsArr [JsStr ''Email is required'', JsStr ''Invalid format'']),
                   (''password'', JsArr [JsStr ''Too short''])])"
    unfolding ve fe .
  from eo2(3) have s2: "member eo2 ''stack'' = None" by blast
  have second: "\<exists>eo. res_body (fst (sendErrorResponse invalid_feature_error (mock_response, []) False))
               = Some (JsObj [(''error'', eo)])
          \<and> member eo ''validationErrors'' =
                Some (JsObj [(''email'', JsArr [JsStr ''Email is required'', JsStr ''Invalid format'']),
                             (''password'', JsArr [JsStr ''Too short''])])
          \<and> member eo ''stack'' = None
          \<and> member eo ''name'' = None"
    using eo2(1) v s2 eo2(4) by blast
  from h1 h2 g1 g2 h3 keys' first second show ?thesis by blast
qed

subsection \<open>C9: a response that was already sent is left alone\<close>

text \<open>
  C9. When \<open>headersSent\<close> is already true, \<open>sendErrorResponse\<close> returns at once: the response
  (status code, headers, body) and the console are exactly what they were.
\<close>

theorem sendErrorResponse_headers_sent:
  "headersSent res \<Longrightarrow> sendErrorResponse err (res, con) includeStack = (res, con)"
  by (simp add: sendErrorResponse_def)

theorem sendErrorResponse_headers_sent_witness:
  "headersSent (mock_response\<lparr>headersSent := True\<rparr>)
   \<and> sendErrorResponse stock_feature_error (mock_response\<lparr>headersSent := True\<rparr>, []) True
       = (mock_response\<lparr>headersSent := True\<rparr>, [])"
  using sendErrorResponse_headers_sent [of "mock_response\<lparr>headersSent := True\<rparr>" stock_feature_error "[]" True]
  by simp

section \<open>Properties of the error classes\<close>

lemma error_is_Error: "Error_cls \<in> set (ancestors c)"
  by (induction c) auto

subsection \<open>C10: the classifiers accept error objects only\<close>

text \<open>
  C10. For a value that is not an instance of \<open>Error\<close>, \<open>isHttpError\<close> is false and
  \<open>isOperationalError\<close> returns \<open>false\<close>, whatever properties the value has; for an instance of
  \<open>Error\<close>, \<open>isHttpError\<close> is true exactly when the value is an instance of \<open>HttpError\<close> or has a
  numeric \<open>statusCode\<close>.
\<close>

theorem isHttpError_error_instances_only:
  "(\<not> instanceof_val v Error_cls \<longrightarrow> \<not> isHttpError v \<and> isOperationalError v = JBool False)
   \<and> (instanceof_val v Error_cls \<longrightarrow>
        isHttpError v = (instanceof_val v HttpError_cls \<or> hasStatusCode v))"
proof -
  have "instanceof_val v HttpError_cls \<Longrightarrow> instanceof_val v Error_cls"
    by (cases v) (simp_all add: instanceof_def error_is_Error)
  then show ?thesis
    by (auto simp: isHttpError_def isOperationalError_def)
qed

text \<open>
  The values of the test: \<open>null\<close>, \<open>undefined\<close>, a string, the plain object
  \<open>{statusCode: 400, message: 'Fake error'}\<close>, and an error of a foreign class with a status code.
\<close>

theorem isHttpError_error_instances_only_witness:
  "\<not> instanceof_val (JObj [(''statusCode'', JNum 400), (''message'', JStr ''Fake error'')]) Error_cls
   \<and> hasStatusCode (JObj [(''statusCode'', JNum 400), (''message'', JStr ''Fake error'')])
   \<and> \<not> isHttpError (JObj [(''statusCode'', JNum 400), (''message'', JStr ''Fake error'')])
   \<and> isOperationalError (JObj [(''statusCode'', JNum 400), (''message'', JStr ''Fake error'')]) = JBool False
   \<and> \<not> isHttpError JNull \<and> \<not> isHttpError JUndefined \<and> \<not> isHttpError (JStr ''string'')
   \<and> instanceof_val (JErr (ErrorObj (Subclass ''ExternalHttpError'' Error_cls) ''Bad request'' []
          [(''statusCode'', JNum 400), (''isOperational'', JBool True), (''name'', JStr ''HttpError'')])) Error_cls
   \<and> isHttpError (JErr (ErrorObj (Subclass ''ExternalHttpError'' Error_cls) ''Bad request'' []
          [(''statusCode'', JNum 400), (''isOperational'', JBool True), (''name'', JStr ''HttpError'')]))"
  using isHttpError_error_instances_only [of "JObj [(''statusCode'', JNum 400), (''message'', JStr ''Fake error'')]"]
    isHttpError_error_instances_only [of JNull]
    isHttpError_error_instances_only [of JUndefined]
    isHttpError_error_instances_only [of "JStr ''string''"]
    isHttpError_error_instances_only [of "JErr (ErrorObj (Subclass ''ExternalHttpError'' Error_cls) ''Bad request'' []
          [(''statusCode'', JNum 400), (''isOperational'', JBool True), (''name'', JStr ''HttpError'')])"]
  by (simp add: hasStatusCode_def instanceof_def err_get_def)

subsection \<open>C6: the wrapper built by FeatureExecutionError\<close>

text \<open>
  C6. \<open>new FeatureExecutionError(e, s)\<close> holds \<open>e\<close> itself as \<open>originalError\<close>, so every property
  of \<open>e\<close> is read through it unchanged; its \<open>statusCode\<close> is that of \<open>e\<close> when \<open>e\<close> has a numeric
  \<open>statusCode\<close>, and 500 when it has none; and the status code does not depend on the class of
  \<open>e\<close>.
\<close>

theorem FeatureExecutionError_preserves_original:
  "err_get (FeatureExecutionError trace e s) ''originalError'' = JErr e
   \<and> (\<forall>k. get (err_get (FeatureExecutionError trace e s) ''originalError'') k = err_get e k)
   \<and> (hasStatusCode (JErr e) \<longrightarrow>
        err_get (FeatureExecutionError trace e s) ''statusCode'' = err_get e ''statusCode'')
   \<and> (\<not> hasStatusCode (JErr e) \<longrightarrow>
        err_get (FeatureExecutionError trace e s) ''statusCode'' = JNum 500)
   \<and> err_get (FeatureExecutionError trace (ErrorObj c m st ps) s) ''statusCode''
       = err_get (FeatureExecutionError trace (ErrorObj c' m st ps) s) ''statusCode''"
  by (simp add: FeatureExecutionError_def HttpError_def Let_def err_get_def update_conv'
      hasStatusCode_def)

text \<open>
  The theorem at the errors of the tests: a class of another module copy with status 422, which
  is no instance of \<open>HttpError\<close>, and a plain \<open>Error\<close>.
\<close>

theorem FeatureExecutionError_preserves_original_witness:
  "hasStatusCode (JErr (ErrorObj (Subclass ''ExternalValidationError'' Error_cls) ''Invalid input'' []
      [(''statusCode'', JNum 422), (''name'', JStr ''ValidationError''), (''code'', JStr ''E_INPUT'')]))
   \<and> \<not> instanceof (ErrorObj (Subclass ''ExternalValidationError'' Error_cls) ''Invalid input'' []
      [(''statusCode'', JNum 422), (''name'', JStr ''ValidationError''), (''code'', JStr ''E_INPUT'')]) HttpError_cls
   \<and> err_get (FeatureExecutionError [] (ErrorObj (Subclass ''ExternalValidationError'' Error_cls) ''Invalid input'' []
      [(''statusCode'', JNum 422), (''name'', JStr ''ValidationError''), (''code'', JStr ''E_INPUT'')]) JUndefined)
        ''statusCode'' = JNum 422
   \<and> get (err_get (FeatureExecutionError [] (ErrorObj (Subclass ''ExternalValidationError'' Error_cls) ''Invalid input'' []
      [(''statusCode'', JNum 422), (''name'', JStr ''ValidationError''), (''code'', JStr ''E_INPUT'')]) JUndefined)
        ''originalError'') ''code'' = JStr ''E_INPUT''
   \<and> \<not> hasStatusCode (JErr (ErrorObj Error_cls ''Something went wrong'' [] []))
   \<and> err_get (FeatureExecutionError [] (ErrorObj Error_cls ''Something went wrong'' [] []) JUndefined)
        ''statusCode'' = JNum 500"
  using FeatureExecutionError_preserves_original [of "[]"
      "ErrorObj (Subclass ''ExternalValidationError'' Error_cls) ''Invalid input'' []
      [(''statusCode'', JNum 422), (''name'', JStr ''ValidationError''), (''code'', JStr ''E_INPUT'')]" JUndefined]
    FeatureExecutionError_preserves_original [of "[]" "ErrorObj Error_cls ''Something went wrong'' [] []" JUndefined]
  by (simp add: hasStatusCode_def err_get_def instanceof_def)

section \<open>Properties of the Auto-Error Handler\<close>

lemma classify_same:
  assumes "props e1 = props e2" "hasStatusCode (JErr e1)" "truthy (err_get e1 ''name'')"
  shows "c_statusCode (classify e1) = c_statusCode (classify e2)
       \<and> c_errorName (classify e1) = c_errorName (classify e2)
       \<and> c_details (classify e1) = c_details (classify e2)"
proof -
  have g: "\<And>k. k \<noteq> ''message'' \<Longrightarrow> k \<noteq> ''stack'' \<Longrightarrow> err_get e1 k = err_get e2 k"
    using assms(1) by (simp add: err_get_def)
  have n: "err_get e1 ''name'' = err_get e2 ''name''" "err_get e1 ''statusCode'' = err_get e2 ''statusCode''"
    "err_get e1 ''step'' = err_get e2 ''step''"
    using g by simp_all
  have h: "hasStatusCode (JErr e2)" using assms(2) n by (simp add: hasStatusCode_def)
  have f: "isFeatureError e1 = isFeatureError e2"
    using n h assms(2) by (auto simp: isFeatureError_def)
  show ?thesis
    using n h assms(2,3) f
    by (auto simp: classify_def isValidationError_def js_or_def)
qed

lemma handle_status:
  "res_statusCode (fst (AutoErrorHandler_handle e error w)) = c_statusCode (classify error)"
  by (simp add: AutoErrorHandler_handle_def AutoErrorHandler_sendErrorResponse_def Let_def
      res_end_def setHeader_def)

lemma handle_body:
  "\<exists>b. res_body (fst (AutoErrorHandler_handle e error w)) = Some b
       \<and> member b ''error'' = JSON_stringify (c_errorName (classify error))
       \<and> member b ''details'' =
           (if c_details (classify error) = [] then None
            else JSON_stringify (JObj (c_details (classify error))))"
  by (simp add: AutoErrorHandler_handle_def AutoErrorHandler_sendErrorResponse_def Let_def
      res_end_def setHeader_def member_json_def map_add_def split: option.splits)

subsection \<open>C7: the same response for a genuine instance and for a copy\<close>




section \<open>Properties of the Async Task Scheduler\<close>

lemma scheduler_log_frame [simp]:
  "w_ctx (scheduler_log e m w) = w_ctx w" "w_res (scheduler_log e m w) = w_res w"
  "w_ctx (scheduler_logError e m w) = w_ctx w" "w_res (scheduler_logError e m w) = w_res w"
  by (simp_all add: scheduler_log_def scheduler_logError_def)

lemma executeTask_frame:
  "w_ctx (snd (executeTask e t w)) = ctx_after (task_fn t (w_ctx w))"
  "w_res (snd (executeTask e t w)) = w_res w"
  by (simp_all add: executeTask_def Let_def split: option.splits)

lemma run_tasks_frame:
  "w_ctx (run_tasks e ts w) = ctx_through ts (w_ctx w) \<and> w_res (run_tasks e ts w) = w_res w"
proof (induction ts arbitrary: w)
  case Nil
  then show ?case by (simp add: ctx_through_def)
next
  case (Cons t ts)
  obtain r w' where ex: "executeTask e t w = (r, w')" by (cases "executeTask e t w")
  have c: "w_ctx w' = ctx_after (task_fn t (w_ctx w))" "w_res w' = w_res w"
    using executeTask_frame [of e t w] ex by simp_all
  show ?case using Cons.IH ex c
    by (cases r) (simp_all add: ctx_through_def)
qed

lemma scheduler_quiet [simp]:
  "\<not> isDebugMode e \<Longrightarrow> scheduler_log e m w = w"
  "\<not> isDebugMode e \<Longrightarrow> scheduler_logError e m w = w"
  by (simp_all add: scheduler_log_def scheduler_logError_def)

lemma run_tasks_quiet: "\<not> isDebugMode e \<Longrightarrow> w_console (run_tasks e ts w) = w_console w"
proof (induction ts arbitrary: w)
  case Nil
  then show ?case by simp
next
  case (Cons t ts)
  then show ?case
    by (auto simp: executeTask_def Let_def split: option.splits prod.splits)
qed

lemma console_grows_log:
  "set (w_console w) \<subseteq> set (w_console (scheduler_log e m w))"
  "set (w_console w) \<subseteq> set (w_console (scheduler_logError e m w))"
  by (auto simp: scheduler_log_def scheduler_logError_def console_log_def console_error_def)

lemma console_grows_task: "set (w_console w) \<subseteq> set (w_console (snd (executeTask e t w)))"
  by (auto simp: executeTask_def Let_def scheduler_log_def console_log_def split: option.splits)

lemma console_grows_run: "set (w_console w) \<subseteq> set (w_console (run_tasks e ts w))"
proof (induction ts arbitrary: w)
  case Nil
  then show ?case by simp
next
  case (Cons t ts)
  obtain r w' where ex: "executeTask e t w = (r, w')" by (cases "executeTask e t w")
  have m: "set (w_console w) \<subseteq> set (w_console w')"
    using console_grows_task [of w e t] ex by simp
  show ?case
  proof (cases r)
    case None
    then show ?thesis using Cons.IH [of w'] ex m by auto
  next
    case (Some err)
    then show ?thesis
      using Cons.IH [of "scheduler_logError e (failure_line t err) w'"] ex m
        console_grows_log(2) [of w' e "failure_line t err"] by auto
  qed
qed

lemma run_tasks_append: "run_tasks e (xs @ ys) w = run_tasks e ys (run_tasks e xs w)"
  by (induction xs arbitrary: w) (auto split: prod.splits option.splits)

lemma failure_logged:
  assumes dbg: "isDebugMode e"
      and thr: "thrown (task_fn t (ctx_through before (w_ctx w))) = Some err"
  shows "(Error_level, ''[AsyncTaskScheduler] ERROR: '' @ failure_line t err)
           \<in> set (w_console (run_tasks e (before @ t # after) w))"
proof -
  let ?w1 = "run_tasks e before w"
  have c1: "w_ctx ?w1 = ctx_through before (w_ctx w)" using run_tasks_frame by blast
  obtain w2 where ex: "executeTask e t ?w1 = (Some err, w2)"
    using thr c1 by (auto simp: executeTask_def Let_def split: option.splits)
  let ?w3 = "scheduler_logError e (failure_line t err) w2"
  have "(Error_level, ''[AsyncTaskScheduler] ERROR: '' @ failure_line t err) \<in> set (w_console ?w3)"
    using dbg by (simp add: scheduler_logError_def console_error_def)
  moreover have "run_tasks e (before @ t # after) w = run_tasks e after ?w3"
    using ex by (simp add: run_tasks_append)
  ultimately show ?thesis using console_grows_run [of ?w3 e after] by auto
qed

subsection \<open>C5: a failing task stops nothing\<close>

text \<open>
  C5, as amended. \<open>executeInBackground\<close> always returns. Every task of the list runs once, in
  list order, on the Context its predecessor left, whether or not a task before it threw;
  the response is untouched. A thrown value is caught; it is logged, with the task's name and
  path, when debug mode is on, and when debug mode is off (under test, and in production
  unless \<open>FEATURE_LOGS\<close> is \<open>true\<close>) the scheduler writes nothing at all.
\<close>

theorem executeInBackground_isolates_failures:
  "w_ctx (executeInBackground e tasks w) = ctx_through tasks (w_ctx w)
   \<and> w_res (executeInBackground e tasks w) = w_res w
   \<and> (\<forall>before t after err.
         isDebugMode e \<and> tasks = before @ t # after
         \<and> thrown (task_fn t (ctx_through before (w_ctx w))) = Some err
         \<longrightarrow> (Error_level, ''[AsyncTaskScheduler] ERROR: '' @ failure_line t err)
               \<in> set (w_console (executeInBackground e tasks w)))
   \<and> (\<not> isDebugMode e \<longrightarrow> w_console (executeInBackground e tasks w) = w_console w)"
proof -
  have a: "w_ctx (executeInBackground e tasks w) = ctx_through tasks (w_ctx w)"
    by (simp add: executeInBackground_def run_tasks_frame)
  have b: "w_res (executeInBackground e tasks w) = w_res w"
    by (simp add: executeInBackground_def run_tasks_frame)
  have c: "(Error_level, ''[AsyncTaskScheduler] ERROR: '' @ failure_line t err)
               \<in> set (w_console (executeInBackground e tasks w))"
    if "isDebugMode e" "tasks = before @ t # after"
       "thrown (task_fn t (ctx_through before (w_ctx w))) = Some err" for before t after err
    using failure_logged [OF that(1) that(3), of after] that(2)
      console_grows_log(1) [of "run_tasks e tasks w" e]
    by (auto simp: executeInBackground_def)
  have d: "\<not> isDebugMode e \<longrightarrow> w_console (executeInBackground e tasks w) = w_console w"
    by (simp add: executeInBackground_def run_tasks_quiet)
  from a b c d show ?thesis by blast
qed

text \<open>
  The theorem at the two tasks of the example in development: the mail task throws, the
  failure is on the console, the analytics task still marks the Context and the response is
  the one that was sent.
\<close>

theorem executeInBackground_isolates_failures_witness:
  "isDebugMode development_env
   \<and> thrown (task_fn send_email (w_ctx after_response)) \<noteq> None
   \<and> w_ctx (executeInBackground development_env [send_email, update_analytics] after_response)
       = [(''email'', JStr ''test@example.com''), (''analytics'', JBool True)]
   \<and> w_res (executeInBackground development_env [send_email, update_analytics] after_response)
       = sent_response
   \<and> (Error_level, ''[AsyncTaskScheduler] ERROR: Async task \"send-email\" at /features/users/@post/async-tasks/send-email.js failed: SMTP connection refused'')
       \<in> set (w_console (executeInBackground development_env [send_email, update_analytics] after_response))"
proof -
  let ?err = "JErr (ErrorObj Error_cls ''SMTP connection refused'' [] [])"
  have dbg: "isDebugMode development_env"
    by (simp add: isDebugMode_def development_env_def)
  have thr: "thrown (task_fn send_email (ctx_through [] (w_ctx after_response))) = Some ?err"
    by (simp add: send_email_def ctx_through_def)
  have line: "''[AsyncTaskScheduler] ERROR: '' @ failure_line send_email ?err =
      ''[AsyncTaskScheduler] ERROR: Async task \"send-email\" at /features/users/@post/async-tasks/send-email.js failed: SMTP connection refused''"
    by (simp add: failure_line_def failure_text_def send_email_def instanceof_def err_get_def)
  have ctx: "ctx_through [send_email, update_analytics] (w_ctx after_response)
       = [(''email'', JStr ''test@example.com''), (''analytics'', JBool True)]"
    by (simp add: ctx_through_def send_email_def update_analytics_def after_response_def)
  have res: "w_res after_response = sent_response"
    by (simp add: after_response_def)
  note t = executeInBackground_isolates_failures
             [of development_env "[send_email, update_analytics]" after_response]
  from t have c: "w_ctx (executeInBackground development_env [send_email, update_analytics] after_response)
       = ctx_through [send_email, update_analytics] (w_ctx after_response)" by blast
  from t have r: "w_res (executeInBackground development_env [send_email, update_analytics] after_response)
       = w_res after_response" by blast
  from t have l: "\<forall>before t after err.
         isDebugMode development_env \<and> [send_email, update_analytics] = before @ t # after
         \<and> thrown (task_fn t (ctx_through before (w_ctx after_response))) = Some err
         \<longrightarrow> (Error_level, ''[AsyncTaskScheduler] ERROR: '' @ failure_line t err)
               \<in> set (w_console (executeInBackground development_env [send_email, update_analytics] after_response))"
    by blast
  have "(Error_level, ''[AsyncTaskScheduler] ERROR: '' @ failure_line send_email ?err)
         \<in> set (w_console (executeInBackground development_env [send_email, update_analytics] after_response))"
    using l dbg thr by (metis append_Nil)
  then have logged: "(Error_level, ''[AsyncTaskScheduler] ERROR: Async task \"send-email\" at /features/users/@post/async-tasks/send-email.js failed: SMTP connection refused'')
         \<in> set (w_console (executeInBackground development_env [send_email, update_analytics] after_response))"
    unfolding line .
  have thr': "thrown (task_fn send_email (w_ctx after_response)) \<noteq> None"
    by (simp add: send_email_def)
  from dbg thr' c r logged show ?thesis unfolding ctx res by blast
qed

text \<open>
  The claim says that the failure is logged. Under the test environment (and likewise in
  production) it is not: the first task throws, the second still runs, and the console stays
  empty.
\<close>

theorem executeInBackground_not_logged_counterexample:
  "thrown (task_fn send_email (w_ctx after_response)) \<noteq> None
   \<and> w_ctx (executeInBackground test_env [send_email, update_analytics] after_response)
       = [(''email'', JStr ''test@example.com''), (''analytics'', JBool True)]
   \<and> w_console (executeInBackground test_env [send_email, update_analytics] after_response) = []
   \<and> w_console (executeInBackground production_env [send_email, update_analytics] after_response) = []"
  by (simp add: executeInBackground_def executeTask_def scheduler_log_def scheduler_logError_def
      isDebugMode_def test_env_def production_env_def send_email_def update_analytics_def
      after_response_def Let_def)

section \<open>Properties of the Step Pipeline\<close>

lemma calls_append [simp]: "calls i (xs @ ys) = calls i xs + calls i ys"
  by (simp add: calls_def)

lemma calls_Nil [simp]: "calls i [] = 0"
  by (simp add: calls_def)

lemma thrown_values_append [simp]: "thrown_values (xs @ ys) = thrown_values xs @ thrown_values ys"
  by (induction xs rule: thrown_values.induct) simp_all

lemma apply_user_frame [simp]:
  "attempts (apply_user r s) = attempts s" "events (apply_user r s) = events s"
  "w_now (apply_user r s) = w_now s" "w_console (apply_user r s) = w_console s"
  by (simp_all add: apply_user_def)

lemma run_steps_calls:
  "run_steps req sts i0 s = (out, s') \<Longrightarrow>
   attempts s' = attempts s
   \<and> calls i (events s') \<le> calls i (events s) + (if i0 \<le> i then 1 else 0)"
proof (induction sts arbitrary: i0 s)
  case Nil
  then show ?case by simp
next
  case (Cons st rest)
  let ?r = "step_fn st (w_ctx s) req (w_res s) (w_globals s)"
  let ?s1 = "(apply_user ?r s)\<lparr>events := events s @ [StepCall i0]\<rparr>"
  show ?case
  proof (cases "u_thrown ?r")
    case (Some e)
    with Cons.prems show ?thesis by (auto simp: Let_def calls_def)
  next
    case None
    show ?thesis
    proof (cases "headersSent (w_res ?s1)")
      case True
      with None Cons.prems show ?thesis by (auto simp: Let_def calls_def)
    next
      case False
      with None Cons.prems have rec: "run_steps req rest (Suc i0) ?s1 = (out, s')"
        by (simp add: Let_def)
      from Cons.IH [OF rec, of ] have ih: "attempts s' = attempts ?s1"
          "calls i (events s') \<le> calls i (events ?s1) + (if Suc i0 \<le> i then 1 else 0)"
        by auto
      have "calls i (events ?s1) = calls i (events s) + (if i0 = i then 1 else 0)"
        by (simp add: calls_def)
      with ih show ?thesis by (auto split: if_splits)
    qed
  qed
qed

lemma run_steps_threw:
  "run_steps req sts i0 s = (Threw e st, s') \<Longrightarrow> \<exists>evs. events s' = evs @ [Thrown e]"
proof (induction sts arbitrary: i0 s)
  case Nil
  then show ?case by simp
next
  case (Cons a rest)
  then show ?case
    by (auto simp: Let_def split: option.splits if_splits)
qed

lemma wrap_error_original [simp]: "err_get (wrap_error e st c) ''originalError'' = e"
  by (simp add: wrap_error_def FeatureError_def err_get_def)

lemma failed_transition_final:
  assumes "failed_transition ha f req e st s1 = Final out s2"
      and "events s1 = evs @ [Thrown e]"
  shows "calls i (events s2) = calls i (events s1)"
    and "out = Escalated v \<Longrightarrow>
           thrown_values (events s2) \<noteq> []
           \<and> (v = last (thrown_values (events s2))
               \<or> get v ''originalError'' = last (thrown_values (events s2)))"
  using assms
  by (auto simp: failed_transition_def Let_def calls_def split: option.splits if_splits)

lemma failed_transition_again:
  assumes a: "failed_transition ha f req e st s1 = Again s2"
      and b: "bounded_hook N f"
  shows "calls i (events s2) = calls i (events s1)"
    and "attempts s2 = Suc (attempts s1)"
    and "attempts s2 < N"
proof -
  obtain hook where hook: "onError f = Some hook"
    using a by (cases "onError f") (auto simp: failed_transition_def Let_def)
  let ?fe = "wrap_error e (step_descriptor st) (w_ctx s1)"
  let ?h = "hook (ha e ?fe) (w_ctx s1) req (w_res s1) (w_globals s1)"
  obtain d where d: "h_retry ?h = Some d"
    using a hook by (cases "h_retry ?h") (auto simp: failed_transition_def Let_def split: option.splits if_splits)
  have m: "maxAttempts d \<le> N"
    using b hook d unfolding bounded_hook_def by blast
  show "calls i (events s2) = calls i (events s1)"
    using a hook d
    by (auto simp: failed_transition_def Let_def calls_def split: option.splits if_splits)
  show "attempts s2 = Suc (attempts s1)"
    using a hook d
    by (auto simp: failed_transition_def Let_def split: option.splits if_splits)
  show "attempts s2 < N"
    using a hook d m
    by (auto simp: failed_transition_def Let_def split: option.splits if_splits)
qed

lemma run_pipeline_bounded:
  assumes b: "bounded_hook N f"
  shows "0 < fuel \<Longrightarrow> N \<le> fuel + attempts s \<Longrightarrow>
         \<exists>out s'. run_pipeline ha fuel f req s = Some (out, s')
           \<and> (\<forall>i. calls i (events s') + attempts s \<le> calls i (events s) + max (Suc (attempts s)) N)
           \<and> (\<forall>v. out = Escalated v \<longrightarrow>
                 thrown_values (events s') \<noteq> []
                 \<and> (v = last (thrown_values (events s'))
                     \<or> get v ''originalError'' = last (thrown_values (events s'))))"
proof (induction fuel arbitrary: s)
  case 0
  then show ?case by simp
next
  case (Suc k)
  obtain so s1 where rs: "run_steps req (route_steps f) 0 s = (so, s1)"
    by (cases "run_steps req (route_steps f) 0 s")
  have c1: "attempts s1 = attempts s" "\<And>i. calls i (events s1) \<le> calls i (events s) + 1"
    using run_steps_calls [OF rs] by auto
  have one: "calls i (events s1) + attempts s \<le> calls i (events s) + max (Suc (attempts s)) N" for i
    using c1(2) [of i] by (simp add: max_def)
  show ?case
  proof (cases so)
    case AllDone
    with rs one show ?thesis by simp
  next
    case Responded
    with rs one show ?thesis by simp
  next
    case (Threw e st)
    obtain evs where ev: "events s1 = evs @ [Thrown e]"
      using run_steps_threw rs Threw by blast
    show ?thesis
    proof (cases "failed_transition ha f req e st s1")
      case (Final out s2)
      have r: "run_pipeline ha (Suc k) f req s = Some (out, s2)"
        using rs Threw Final by simp
      have c2: "\<And>i. calls i (events s2) = calls i (events s1)"
        using failed_transition_final(1) [OF Final ev] .
      have e2: "\<And>v. out = Escalated v \<Longrightarrow>
           thrown_values (events s2) \<noteq> []
           \<and> (v = last (thrown_values (events s2))
               \<or> get v ''originalError'' = last (thrown_values (events s2)))"
        using failed_transition_final(2) [OF Final ev] .
      have "\<And>i. calls i (events s2) + attempts s \<le> calls i (events s) + max (Suc (attempts s)) N"
        using one c2 by simp
      with r e2 show ?thesis by blast
    next
      case (Again s2)
      have r: "run_pipeline ha (Suc k) f req s = run_pipeline ha k f req s2"
        using rs Threw Again by simp
      note a = failed_transition_again [OF Again b]
      have at: "attempts s2 = Suc (attempts s)" "Suc (attempts s) < N"
        using a(2,3) c1(1) by simp_all
      have k0: "0 < k" using at Suc.prems by linarith
      have kN: "N \<le> k + attempts s2" using at Suc.prems by linarith
      from Suc.IH [OF k0 kN] obtain out s' where
        ih: "run_pipeline ha k f req s2 = Some (out, s')"
            "\<And>i. calls i (events s') + attempts s2 \<le> calls i (events s2) + max (Suc (attempts s2)) N"
            "\<And>v. out = Escalated v \<Longrightarrow>
                 thrown_values (events s') \<noteq> []
                 \<and> (v = last (thrown_values (events s'))
                     \<or> get v ''originalError'' = last (thrown_values (events s')))"
        by blast
      have "calls i (events s') + attempts s \<le> calls i (events s) + max (Suc (attempts s)) N" for i
      proof -
        have "calls i (events s') + Suc (attempts s) \<le> calls i (events s2) + N"
          using ih(2) [of i] at by (simp add: max_def)
        moreover have "calls i (events s2) \<le> calls i (events s) + 1"
          using a(1) [of i] c1(2) [of i] by simp
        ultimately show ?thesis using at by (simp add: max_def)
      qed
      with r ih(1) ih(3) show ?thesis by auto
    qed
  qed
qed

subsection \<open>The two example routes, step by step\<close>

lemma start_state_simps [simp]:
  "attempts (start_state w) = 0" "events (start_state w) = []"
  "w_ctx (start_state w) = []" "w_res (start_state w) = w_res w" "w_globals (start_state w) = w_globals w"
  "w_now (start_state w) = w_now w"
  by (simp_all add: start_state_def world.extend_def)

lemma fresh_not_sent [simp]: "\<not> headersSent (w_res fresh_world)"
  by (simp add: fresh_world_def mock_response_def)

lemma payment_steps:
  "run_steps req [process_payment] 0 s
     = (Threw network_error process_payment, s\<lparr>events := events s @ [StepCall 0, Thrown network_error]\<rparr>)"
  by (simp add: process_payment_def apply_user_def Let_def)

lemma payment_hook:
  "retry_onError n (JErr (wrap_error network_error st c)) c' rq r g
     = \<lparr>u_thrown = None, u_ctx = c', u_res = r, u_globals = g,
        h_retry = Some \<lparr>delay = 1000, maxAttempts = n\<rparr>\<rparr>"
  by (simp add: retry_onError_def wrap_error_def FeatureError_def err_get_def network_error_def
      message_slot_def)

lemma payment_failed:
  "\<not> headersSent (w_res s1) \<Longrightarrow>
   failed_transition feature_error_arg (payments_route n) req network_error process_payment s1
     = (let fe = wrap_error network_error (step_descriptor process_payment) (w_ctx s1);
            s3 = s1\<lparr>events := events s1 @ [HookCall (JErr fe)], attempts := Suc (attempts s1)\<rparr>
        in if Suc (attempts s1) < n
           then Again (s3\<lparr>w_now := w_now s1 + 1000, events := events s3 @ [Wait 1000]\<rparr>)
           else Final (Escalated (JErr fe)) s3)"
  by (simp add: failed_transition_def payments_route_def feature_error_arg_def payment_hook
      Let_def apply_user_def user_result.truncate_def)

lemma payment_attempt_simps [simp]:
  "attempts (payment_attempt s) = Suc (attempts s)"
  "w_res (payment_attempt s) = w_res s" "w_ctx (payment_attempt s) = w_ctx s"
  "calls 0 (events (payment_attempt s)) = Suc (calls 0 (events s))"
  "attempts (payment_wait s) = attempts s"
  "w_res (payment_wait s) = w_res s" "w_ctx (payment_wait s) = w_ctx s"
  "calls 0 (events (payment_wait s)) = calls 0 (events s)"
  by (simp_all add: payment_attempt_def payment_wait_def calls_def)

lemma payment_run:
  "\<not> headersSent (w_res s) \<Longrightarrow>
   run_pipeline feature_error_arg (Suc k) (payments_route n) req s
     = (if Suc (attempts s) < n
        then run_pipeline feature_error_arg k (payments_route n) req (payment_wait (payment_attempt s))
        else Some (Escalated (JErr (wrap_error network_error (step_descriptor process_payment) (w_ctx s))),
                   payment_attempt s))"
proof -
  assume h: "\<not> headersSent (w_res s)"
  let ?s1 = "s\<lparr>events := events s @ [StepCall 0, Thrown network_error]\<rparr>"
  have st: "run_steps req (route_steps (payments_route n)) 0 s = (Threw network_error process_payment, ?s1)"
    by (simp add: payments_route_def payment_steps del: run_steps.simps)
  have h1: "\<not> headersSent (w_res ?s1)" using h by simp
  show ?thesis
    by (simp add: st payment_failed [OF h1] Let_def payment_attempt_def payment_wait_def)
qed

lemma payments_three:
  "run_pipeline feature_error_arg 3 (payments_route 3) payments_request (start_state fresh_world)
     = Some (Escalated (JErr (wrap_error network_error (step_descriptor process_payment) [])),
             payment_attempt (payment_wait (payment_attempt (payment_wait (payment_attempt (start_state fresh_world))))))"
proof -
  have three: "(3::nat) = Suc (Suc (Suc 0))" by simp
  show ?thesis by (simp add: three payment_run del: run_pipeline.simps)
qed

lemma payments_zero:
  "run_pipeline feature_error_arg 1 (payments_route 0) payments_request (start_state fresh_world)
     = Some (Escalated (JErr (wrap_error network_error (step_descriptor process_payment) [])),
             payment_attempt (start_state fresh_world))"
proof -
  have one: "(1::nat) = Suc 0" by simp
  show ?thesis unfolding one by (simp add: payment_run del: run_pipeline.simps)
qed

lemma payments_bounded: "bounded_hook n (payments_route n)"
  by (auto simp: bounded_hook_def payments_route_def retry_onError_def split: if_splits)

lemma orders_steps:
  "run_steps req [check_stock] 0 s
     = (Threw (JErr stock_error) check_stock, s\<lparr>events := events s @ [StepCall 0, Thrown (JErr stock_error)]\<rparr>)"
  by (simp add: check_stock_def apply_user_def Let_def)

lemma stock_error_gets:
  "err_get stock_error ''code'' = JStr ''OUT_OF_STOCK''"
  "err_get stock_error ''message'' = JStr ''Out of stock''"
  "err_get stock_error ''originalError'' = JUndefined"
  "err_get stock_error ''statusCode'' = JNum 400"
  by (simp_all add: stock_error_def BusinessError_def HttpError_def Let_def err_get_def)

lemma orders_hook_wrapper:
  "orders_onError (JErr (wrap_error (JErr stock_error) st c)) c' rq r g
     = \<lparr>u_thrown = None, u_ctx = c', u_res = stock_not_available r, u_globals = g, h_retry = None\<rparr>"
  by (simp add: orders_onError_def stock_error_gets stock_not_available_def)

lemma orders_hook_original:
  "orders_onError (JErr stock_error) c' rq r g
     = \<lparr>u_thrown = None, u_ctx = c', u_res = r, u_globals = g, h_retry = None\<rparr>"
  by (simp add: orders_onError_def stock_error_gets)

lemma stock_not_available_expected: "orders_expected (stock_not_available r)"
  by (simp add: orders_expected_def stock_not_available_def res_end_def setHeader_def member_json_def)

lemma orders_failed_wrapper:
  "failed_transition feature_error_arg orders_route req (JErr stock_error) check_stock s1
     = Final Completed
         (s1\<lparr>w_res := stock_not_available (w_res s1),
             events := events s1 @ [HookCall (JErr (wrap_error (JErr stock_error) (step_descriptor check_stock) (w_ctx s1)))]\<rparr>)"
  by (simp add: failed_transition_def orders_route_def feature_error_arg_def orders_hook_wrapper
      Let_def apply_user_def user_result.truncate_def stock_not_available_def res_end_def setHeader_def)

lemma orders_failed_original:
  "\<not> headersSent (w_res s1) \<Longrightarrow>
   failed_transition original_error_arg orders_route req (JErr stock_error) check_stock s1
     = Final (Escalated (JErr (wrap_error (JErr stock_error) (step_descriptor check_stock) (w_ctx s1))))
         (s1\<lparr>events := events s1 @ [HookCall (JErr stock_error)]\<rparr>)"
  by (simp add: failed_transition_def orders_route_def original_error_arg_def orders_hook_original
      Let_def apply_user_def user_result.truncate_def)

lemma orders_run_wrapper:
  "run_pipeline feature_error_arg 1 orders_route req s
     = Some (Completed,
         s\<lparr>w_res := stock_not_available (w_res s),
           events := events s @ [StepCall 0, Thrown (JErr stock_error),
              HookCall (JErr (wrap_error (JErr stock_error) (step_descriptor check_stock) (w_ctx s)))]\<rparr>)"
proof -
  have one: "(1::nat) = Suc 0" by simp
  have st: "run_steps req (route_steps orders_route) 0 s
      = (Threw (JErr stock_error) check_stock, s\<lparr>events := events s @ [StepCall 0, Thrown (JErr stock_error)]\<rparr>)"
    by (simp add: orders_route_def orders_steps del: run_steps.simps)
  show ?thesis unfolding one
    by (simp add: st orders_failed_wrapper)
qed

lemma orders_run_original:
  assumes "\<not> headersSent (w_res s)"
  shows "run_pipeline original_error_arg 1 orders_route req s
     = Some (Escalated (JErr (wrap_error (JErr stock_error) (step_descriptor check_stock) (w_ctx s))),
         s\<lparr>events := events s @ [StepCall 0, Thrown (JErr stock_error), HookCall (JErr stock_error)]\<rparr>)"
proof -
  have one: "(1::nat) = Suc 0" by simp
  let ?s1 = "s\<lparr>events := events s @ [StepCall 0, Thrown (JErr stock_error)]\<rparr>"
  have st: "run_steps req (route_steps orders_route) 0 s = (Threw (JErr stock_error) check_stock, ?s1)"
    by (simp add: orders_route_def orders_steps del: run_steps.simps)
  have h1: "\<not> headersSent (w_res ?s1)" using assms by simp
  show ?thesis unfolding one
    by (simp add: st orders_failed_original [OF h1])
qed

lemma send_no_errorCode:
  "\<not> headersSent r \<Longrightarrow> \<not> orders_expected (fst (sendErrorResponse v (r, con) inc))"
  by (simp add: orders_expected_def body_of_send)

lemma stringify_members_keys: "fst ` set (stringify_members ps) \<subseteq> fst ` set ps"
  by (induction ps) (auto simp: member_json_def split: option.splits)

lemma stringify_members_absent: "k \<notin> fst ` set ps \<Longrightarrow> map_of (stringify_members ps) k = None"
  using stringify_members_keys [of ps] by (auto simp: map_of_eq_None_iff)

lemma handle_no_errorCode:
  "\<not> orders_expected (fst (AutoErrorHandler_handle e v w))"
proof -
  let ?c = "classify v"
  let ?payload = "[(''success'', JBool False), (''error'', c_errorName ?c), (''message'', c_errorMessage ?c),
                   (''details'', if length (c_details ?c) > 0 then JObj (c_details ?c) else JUndefined)]
                  @ (if NODE_ENV e = Some ''development'' then [(''stack'', err_get v ''stack'')] else [])"
  have b: "res_body (fst (AutoErrorHandler_handle e v w)) = Some (JsObj (stringify_members ?payload))"
    by (simp add: AutoErrorHandler_handle_def AutoErrorHandler_sendErrorResponse_def Let_def
        res_end_def setHeader_def del: stringify_members.simps)
  have "''errorCode'' \<notin> fst ` set ?payload" by auto
  then have "map_of (stringify_members ?payload) ''errorCode'' = None"
    by (rule stringify_members_absent)
  then have "member (JsObj (stringify_members ?payload)) ''errorCode'' = None"
    by (simp del: stringify_members.simps)
  then show ?thesis
    by (simp add: orders_expected_def b del: stringify_members.simps member.simps)
qed

subsection \<open>The retry test of the repository\<close>

lemma timeout_error_gets:
  "err_get timeout_error ''code'' = JStr ''NETWORK_ERROR''"
  "err_get timeout_error ''originalError'' = JUndefined"
  "err_get timeout_error ''message'' = JStr ''Network timeout''"
  by (simp_all add: timeout_error_def BusinessError_def HttpError_def Let_def err_get_def)

lemma counting_first:
  "map_of (w_globals s) ''attemptCount'' = Some (JNum 0) \<Longrightarrow>
   run_steps req [process_payment_counting] 0 s
     = (Threw (JErr timeout_error) process_payment_counting,
        s\<lparr>w_globals := AList.update ''attemptCount'' (JNum 1) (w_globals s),
          events := events s @ [StepCall 0, Thrown (JErr timeout_error)]\<rparr>)"
  by (simp add: process_payment_counting_def apply_user_def Let_def)

lemma counting_second:
  "map_of (w_globals s) ''attemptCount'' = Some (JNum 1) \<Longrightarrow>
   run_steps req [process_payment_counting] 0 s
     = (Responded,
        s\<lparr>w_res := res_json 200 (JObj [(''success'', JBool True), (''attempts'', JNum 2)]) (w_res s),
          w_globals := AList.update ''attemptCount'' (JNum 2) (w_globals s),
          events := events s @ [StepCall 0]\<rparr>)"
  by (simp add: process_payment_counting_def apply_user_def Let_def res_json_def res_end_def)

lemma fallback_hook_wrapper:
  "fallback_onError (JErr (wrap_error (JErr timeout_error) st c)) c' rq r g
     = \<lparr>u_thrown = None, u_ctx = AList.update ''fallbackProvider'' (JStr ''backup'') c',
        u_res = r, u_globals = g, h_retry = Some \<lparr>delay = 10, maxAttempts = 2\<rparr>\<rparr>"
  by (simp add: fallback_onError_def timeout_error_gets)

lemma fallback_failed:
  "\<not> headersSent (w_res s1) \<Longrightarrow> attempts s1 = 0 \<Longrightarrow>
   failed_transition feature_error_arg retry_test_route req (JErr timeout_error) process_payment_counting s1
     = Again (s1\<lparr>w_ctx := AList.update ''fallbackProvider'' (JStr ''backup'') (w_ctx s1),
                  attempts := 1, w_now := w_now s1 + 10,
                  events := events s1 @ [HookCall (JErr (wrap_error (JErr timeout_error)
                              (step_descriptor process_payment_counting) (w_ctx s1))), Wait 10]\<rparr>)"
  by (simp add: failed_transition_def retry_test_route_def feature_error_arg_def fallback_hook_wrapper
      Let_def apply_user_def user_result.truncate_def)

text \<open>
  Handed the Feature Error, the hook asks for a retry, the second attempt answers 200 with
  \<open>attempts: 2\<close>, and the step was invoked twice, which is the directive's maximum.
\<close>

lemma retry_test_second_attempt:
  "\<exists>s. run_pipeline feature_error_arg 2 retry_test_route req (start_state retry_test_world)
          = Some (Completed, s)
      \<and> res_statusCode (w_res s) = JNum 200
      \<and> res_body (w_res s) = Some (JsObj [(''success'', JsBool True), (''attempts'', JsNum 2)])
      \<and> calls 0 (events s) = 2"
proof -
  let ?s0 = "start_state retry_test_world"
  have g0: "map_of (w_globals ?s0) ''attemptCount'' = Some (JNum 0)"
    by (simp add: retry_test_world_def)
  let ?s1 = "?s0\<lparr>w_globals := AList.update ''attemptCount'' (JNum 1) (w_globals ?s0),
                 events := events ?s0 @ [StepCall 0, Thrown (JErr timeout_error)]\<rparr>"
  have st1: "run_steps req (route_steps retry_test_route) 0 ?s0
               = (Threw (JErr timeout_error) process_payment_counting, ?s1)"
    using counting_first [OF g0, of req] by (simp add: retry_test_route_def del: run_steps.simps)
  have ns1: "\<not> headersSent (w_res ?s1)" by (simp add: retry_test_world_def mock_response_def)
  have a1: "attempts ?s1 = 0" by simp
  let ?s2 = "?s1\<lparr>w_ctx := AList.update ''fallbackProvider'' (JStr ''backup'') (w_ctx ?s1),
                  attempts := 1, w_now := w_now ?s1 + 10,
                  events := events ?s1 @ [HookCall (JErr (wrap_error (JErr timeout_error)
                              (step_descriptor process_payment_counting) (w_ctx ?s1))), Wait 10]\<rparr>"
  have ft: "failed_transition feature_error_arg retry_test_route req (JErr timeout_error)
              process_payment_counting ?s1 = Again ?s2"
    using ns1 a1 by (rule fallback_failed)
  have g1: "map_of (w_globals ?s2) ''attemptCount'' = Some (JNum 1)"
    by (simp add: retry_test_world_def)
  let ?s3 = "?s2\<lparr>w_res := res_json 200 (JObj [(''success'', JBool True), (''attempts'', JNum 2)]) (w_res ?s2),
          w_globals := AList.update ''attemptCount'' (JNum 2) (w_globals ?s2),
          events := events ?s2 @ [StepCall 0]\<rparr>"
  have st2: "run_steps req (route_steps retry_test_route) 0 ?s2 = (Responded, ?s3)"
    using counting_second [OF g1, of req] by (simp add: retry_test_route_def del: run_steps.simps)
  have two: "(2::nat) = Suc (Suc 0)" by simp
  have run: "run_pipeline feature_error_arg 2 retry_test_route req ?s0 = Some (Completed, ?s3)"
    unfolding two
    by (simp only: run_pipeline.simps st1 ft st2 prod.case steps_outcome.case failed_outcome.case)
  have r1: "res_statusCode (w_res ?s3) = JNum 200"
    by (simp add: res_json_def res_end_def setHeader_def)
  have r2: "res_body (w_res ?s3) = Some (JsObj [(''success'', JsBool True), (''attempts'', JsNum 2)])"
    by (simp add: res_json_def res_end_def setHeader_def member_json_def)
  have r3: "calls 0 (events ?s3) = 2"
    by (simp add: calls_def)
  from run r1 r2 r3 show ?thesis by blast
qed

subsection \<open>C3: the number of attempts is bounded\<close>




subsection \<open>C4: what the error hook is invoked with\<close>

lemma wrapper_is_not_original: "JErr (wrap_error e st c) \<noteq> e"
proof
  assume "JErr (wrap_error e st c) = e"
  then have "size (JErr (wrap_error e st c)) = size e" by simp
  then show False by (simp add: wrap_error_def FeatureError_def)
qed




section \<open>Properties of the Convention Resolver\<close>

lemma split_no_sep: "c \<notin> set s \<Longrightarrow> split c s = [s]"
  by (induction s) auto

lemma split_append_sep: "c \<notin> set s \<Longrightarrow> split c (s @ c # rest) = s # split c rest"
  by (induction s) auto

lemma split_joined:
  "c \<notin> set s \<Longrightarrow> \<forall>x \<in> set ss. c \<notin> set x \<Longrightarrow>
   split c (s @ concat (map (\<lambda>x. c # x) ss)) = s # ss"
proof (induction ss arbitrary: s)
  case Nil
  then show ?case by (simp add: split_no_sep)
next
  case (Cons a ss)
  have "split c (s @ concat (map (\<lambda>x. c # x) (a # ss)))
          = split c (s @ c # (a @ concat (map (\<lambda>x. c # x) ss)))"
    by simp
  also have "\<dots> = s # split c (a @ concat (map (\<lambda>x. c # x) ss))"
    using Cons.prems(1) by (rule split_append_sep)
  also have "\<dots> = s # a # ss" using Cons by simp
  finally show ?case .
qed

lemma segments_abs_path:
  assumes "well_formed segs"
  shows "segments (abs_path segs) = segs"
proof -
  have "split CHR ''/'' ([] @ concat (map (\<lambda>s. CHR ''/'' # s) segs)) = [] # segs"
    using assms by (intro split_joined) (auto simp: well_formed_def)
  then show ?thesis using assms
    by (simp add: segments_def abs_path_def well_formed_def filter_id_conv)
qed

lemma find_boundary_last:
  "verb_of_segment b = Some m \<Longrightarrow> find_boundary (ms @ [b]) = Some (length ms, m)"
  by (induction ms) auto

lemma well_formed_append: "well_formed (xs @ ys) = (well_formed xs \<and> well_formed ys)"
  by (auto simp: well_formed_def)

subsection \<open>C8: method and path from the directory names\<close>

text \<open>
  C8. Let a file lie in the method-boundary directory \<open>root/m1/.../mk/@verb\<close>, with the
  features root \<open>root\<close> supplied. Then resolution succeeds; the method is the verb's, and the
  path is \<open>/\<close> followed by the segments \<open>m1 ... mk\<close> in directory order, joined by \<open>/\<close>
  (just \<open>/\<close> when there is none), where a segment \<open>[name]\<close> has become \<open>:name\<close> and every other
  segment is unchanged.
\<close>

theorem resolveConventions_method_and_path:
  assumes "well_formed (root @ ms @ [b, file])"
      and "verb_of_segment b = Some m"
  shows "\<exists>r. resolveConventions is_dir (abs_path (root @ ms @ [b, file])) (Some (abs_path root)) = Inr r
          \<and> conv_method r = m
          \<and> conv_path r = path_of_segments (map path_segment ms)
          \<and> (\<forall>name. path_segment (CHR ''['' # name @ '']'') = CHR '':'' # name)
          \<and> (\<forall>seg \<in> set ms. hd seg \<noteq> CHR ''['' \<longrightarrow> path_segment seg = seg)"
proof -
  have wf_root: "well_formed root"
    using assms(1) by (simp add: well_formed_append)
  have segs: "segments (abs_path (root @ ms @ [b, file])) = root @ ms @ [b, file]"
    using assms(1) by (rule segments_abs_path)
  have rsegs: "segments (abs_path root) = root"
    using wf_root by (rule segments_abs_path)
  have dirs: "butlast (root @ ms @ [b, file]) = root @ ms @ [b]"
    by (simp add: butlast_append)
  have fb: "find_boundary (ms @ [b]) = Some (length ms, m)"
    using assms(2) by (rule find_boundary_last)
  have p: "\<forall>name. path_segment (CHR ''['' # name @ '']'') = CHR '':'' # name"
    by (simp add: path_segment_def butlast_append)
  have q: "\<forall>seg \<in> set ms. hd seg \<noteq> CHR ''['' \<longrightarrow> path_segment seg = seg"
    by (simp add: path_segment_def)
  show ?thesis
    using p q by (simp add: resolveConventions_def segs rsegs dirs fb Let_def)
qed

text \<open>The example of the spec: \<open>.../features/users/[id]/@get\<close> gives GET and \<open>/users/:id\<close>.\<close>

theorem resolveConventions_method_and_path_witness:
  "well_formed ([''app'', ''features''] @ [''users'', ''[id]''] @ [''@get'', ''index.js''])
   \<and> verb_of_segment ''@get'' = Some ''GET''
   \<and> abs_path ([''app'', ''features''] @ [''users'', ''[id]''] @ [''@get'', ''index.js''])
       = ''/app/features/users/[id]/@get/index.js''
   \<and> abs_path [''app'', ''features''] = ''/app/features''
   \<and> (\<exists>r. resolveConventions (\<lambda>d. False) ''/app/features/users/[id]/@get/index.js'' (Some ''/app/features'') = Inr r
          \<and> conv_method r = ''GET''
          \<and> conv_path r = ''/users/:id'')"
proof -
  have h1: "well_formed ([''app'', ''features''] @ [''users'', ''[id]''] @ [''@get'', ''index.js''])"
    by (simp add: well_formed_def)
  have h2: "verb_of_segment ''@get'' = Some ''GET''"
    by (simp add: verb_of_segment_def http_verbs_def)
  have a1: "abs_path ([''app'', ''features''] @ [''users'', ''[id]''] @ [''@get'', ''index.js''])
       = ''/app/features/users/[id]/@get/index.js''"
    by (simp add: abs_path_def)
  have a2: "abs_path [''app'', ''features''] = ''/app/features''"
    by (simp add: abs_path_def)
  have pth: "path_of_segments (map path_segment [''users'', ''[id]'']) = ''/users/:id''"
    by (simp add: path_of_segments_def path_segment_def abs_path_def)
  from resolveConventions_method_and_path [OF h1 h2, of "\<lambda>d. False"]
  obtain r where r: "resolveConventions (\<lambda>d. False)
        (abs_path ([''app'', ''features''] @ [''users'', ''[id]''] @ [''@get'', ''index.js'']))
        (Some (abs_path [''app'', ''features''])) = Inr r"
      "conv_method r = ''GET''"
      "conv_path r = path_of_segments (map path_segment [''users'', ''[id]''])"
    by blast
  from r(1) have r1: "resolveConventions (\<lambda>d. False) ''/app/features/users/[id]/@get/index.js''
        (Some ''/app/features'') = Inr r"
    unfolding a1 a2 .
  from h1 h2 a1 a2 r1 r(2) r(3) pth show ?thesis by auto
qed

section \<open>Properties of the route priority ranking\<close>

lemma segment_counts: "literal_count p + param_count p = length (segments p)"
  unfolding literal_count_def param_count_def
  by (induction "segments p") (simp_all add: sum_length_filter_compl add.commute)

lemma sorted_pairs:
  assumes "i < j" "j < length (sortFeaturesByPriority rs)"
  shows "priority (route_path (sortFeaturesByPriority rs ! i))
           \<le> priority (route_path (sortFeaturesByPriority rs ! j))"
proof -
  let ?out = "sortFeaturesByPriority rs"
  have "sorted (map (\<lambda>r. priority (route_path r)) ?out)"
    unfolding sortFeaturesByPriority_def by (rule sorted_sort_key)
  then have "map (\<lambda>r. priority (route_path r)) ?out ! i \<le> map (\<lambda>r. priority (route_path r)) ?out ! j"
    using assms by (simp add: sorted_iff_nth_mono_less)
  then show ?thesis using assms by simp
qed

lemma priority_le:
  "priority a \<le> priority b \<longleftrightarrow>
     literal_count b < literal_count a
     \<or> (literal_count a = literal_count b
        \<and> (param_count a < param_count b \<or> (param_count a = param_count b \<and> a \<le> b)))"
  by (auto simp: priority_def)

subsection \<open>C2: the order of the routes a scan returns\<close>


lemma blog_priorities:
  "priority ''/blog/search'' = (- 2, 0, ''/blog/search'')"
  "priority ''/blog/about'' = (- 2, 0, ''/blog/about'')"
  "priority ''/blog/:slug'' = (- 1, 1, ''/blog/:slug'')"
  "priority ''/blog/:slug/comments/all'' = (- 3, 1, ''/blog/:slug/comments/all'')"
  by (simp_all add: priority_def literal_count_def param_count_def segments_def is_param_def)




end
